theory Spec2Isabelle
  imports Main "HOL-Library.AList"
begin

section \<open>CINESONICS backend: rate-limiting store and one-time cover tokens\<close>

text \<open>
  The development embeds \<^verbatim>\<open>server.js\<close>. The module-level objects \<^verbatim>\<open>store\<close> and
  \<^verbatim>\<open>coverTokens\<close> are passed explicitly and returned updated. A JavaScript \<^verbatim>\<open>Map\<close> is an
  association list: \<^verbatim>\<open>get\<close> is \<^const>\<open>map_of\<close>, \<^verbatim>\<open>set\<close> is \<^const>\<open>AList.update\<close> (replace in
  place or append), \<^verbatim>\<open>delete\<close> is \<^const>\<open>AList.delete\<close> and \<^verbatim>\<open>clear\<close> gives the empty list.
  Counters and instants are JavaScript numbers that only ever hold integers, hence \<^typ>\<open>int\<close>.
  Every reading of the platform (the clock, the environment, the random token, the
  outcome of a \<^verbatim>\<open>fetch\<close>) is an argument of the handler that reads it.

  The per-user records are objects: \<^verbatim>\<open>store.users\<close> holds references to them, and the
  generate handler keeps the reference it read before its \<^verbatim>\<open>await\<close> and increments through
  it afterwards. So the records live in an explicit heap, the map holds addresses, and
  the generate handler is two steps: one up to the \<^verbatim>\<open>await\<close>, one from it on, which runs
  on whatever store, heap and tokens the handlers that ran in between have left.
\<close>

subsection \<open>Strings\<close>

text \<open>
  A JavaScript string is a sequence of UTF-16 code units, each below 65536; what the
  client sends and what the upstream answers can hold any of them. The strings that the
  server makes itself or reads from HTTP headers (addresses, dates, tokens, URLs) hold
  code units below 256 only and are kept as \<^typ>\<open>string\<close>.
\<close>

type_synonym ustring = "nat list"

definition utf16 :: "string \<Rightarrow> ustring" where
  "utf16 s = map of_char s"

text \<open>
  The code units that \<^verbatim>\<open>String.prototype.trim\<close> and the regular expression class \<^verbatim>\<open>\s\<close>
  strip: the ECMAScript white space and line terminators.
\<close>

definition isWhiteSpace :: "nat \<Rightarrow> bool" where
  "isWhiteSpace c =
     (c \<in> {9, 10, 11, 12, 13, 32, 160, 5760, 8232, 8233, 8239, 8287, 12288, 65279}
      \<or> (8192 \<le> c \<and> c \<le> 8202))"

definition trimBy :: "('a \<Rightarrow> bool) \<Rightarrow> 'a list \<Rightarrow> 'a list" where
  "trimBy ws s = rev (dropWhile ws (rev (dropWhile ws s)))"

definition trim :: "ustring \<Rightarrow> ustring" where
  "trim s = trimBy isWhiteSpace s"

subsection \<open>Rate-limiting store\<close>

definition DAILY_GLOBAL_LIMIT :: int where
  "DAILY_GLOBAL_LIMIT = 11"

definition DAILY_USER_LIMIT :: int where
  "DAILY_USER_LIMIT = 2"

record user_rec =
  count :: int
  date :: string

text \<open>
  The heap of record objects: what each address holds, and the first address that no
  object has been given yet.
\<close>

type_synonym addr = nat

record heap =
  cells :: "addr \<Rightarrow> user_rec"
  nextAddr :: addr

record store =
  globalCount :: int
  resetDate :: string
  users :: "(string \<times> addr) list"

text \<open>\<^verbatim>\<open>resetIfNewDay\<close>; the argument \<open>today\<close> is what \<^verbatim>\<open>todayUTC()\<close> returns.\<close>

definition resetIfNewDay :: "string \<Rightarrow> store \<Rightarrow> store" where
  "resetIfNewDay today s =
     (if resetDate s \<noteq> today
      then s\<lparr>globalCount := 0, resetDate := today, users := []\<rparr>
      else s)"

text \<open>
  The request as \<^verbatim>\<open>clientIp\<close> and the generate handler read it: the
  \<^verbatim>\<open>x-forwarded-for\<close> header, \<^verbatim>\<open>req.ip\<close>, \<^verbatim>\<open>req.socket?.remoteAddress\<close> (each \<open>None\<close> when
  undefined), and \<^verbatim>\<open>req.body.vibe\<close> (\<open>None\<close> when its \<^verbatim>\<open>typeof\<close> is not \<^verbatim>\<open>'string'\<close>), where
  \<^verbatim>\<open>req.body\<close> is the object that \<^verbatim>\<open>express.json()\<close> provides.
\<close>

record request =
  forwardedFor :: "string option"
  reqIp :: "string option"
  remoteAddress :: "string option"
  vibe :: "ustring option"

text \<open>\<^verbatim>\<open>a || b\<close> where \<^verbatim>\<open>a\<close> is a string or undefined: the empty string is falsy too.\<close>

definition orElse :: "string option \<Rightarrow> string \<Rightarrow> string" where
  "orElse a b = (case a of None \<Rightarrow> b | Some x \<Rightarrow> if x \<noteq> [] then x else b)"

definition clientIp :: "request \<Rightarrow> string" where
  "clientIp req =
     (case forwardedFor req of
        Some forwarded \<Rightarrow>
          if forwarded \<noteq> []
          then trimBy (\<lambda>c. isWhiteSpace (of_char c)) (takeWhile (\<lambda>c. c \<noteq> CHR '','') forwarded)
          else orElse (reqIp req) (orElse (remoteAddress req) ''unknown'')
      | None \<Rightarrow> orElse (reqIp req) (orElse (remoteAddress req) ''unknown''))"

text \<open>
  The address of a new object. An object literal makes an object that is none of those
  the program holds: the address lies at or above \<open>nextAddr\<close> and above every address in
  the map.
\<close>

definition fresh :: "store \<Rightarrow> heap \<Rightarrow> addr" where
  "fresh s h = fold (\<lambda>p m. max m (Suc (snd p))) (users s) (nextAddr h)"

text \<open>
  \<^verbatim>\<open>userRecord\<close>: get or create the per-user record; returns the reference to it with
  the store and the heap.
\<close>

definition userRecord :: "string \<Rightarrow> string \<Rightarrow> store \<Rightarrow> heap \<Rightarrow> addr \<times> store \<times> heap" where
  "userRecord today ip s h =
     (let created =
            (fresh s h,
             s\<lparr>users := AList.update ip (fresh s h) (users s)\<rparr>,
             h\<lparr>cells := (cells h)(fresh s h := \<lparr>count = 0, date = today\<rparr>),
               nextAddr := Suc (fresh s h)\<rparr>)
      in case map_of (users s) ip of
           Some rec \<Rightarrow> if date (cells h rec) \<noteq> today then created else (rec, s, h)
         | None \<Rightarrow> created)"

subsection \<open>GET /api/status\<close>

record status_body =
  globalRemaining :: int
  userRemaining :: int
  globalLimit :: int
  userLimit :: int
  resetsAt :: string

definition status :: "string \<Rightarrow> request \<Rightarrow> store \<Rightarrow> heap \<Rightarrow> status_body \<times> store \<times> heap" where
  "status today req s h =
     (let s1 = resetIfNewDay today s;
          ip = clientIp req;
          (rec, s2, h2) = userRecord today ip s1 h
      in (\<lparr>globalRemaining = max 0 (DAILY_GLOBAL_LIMIT - globalCount s2),
           userRemaining = max 0 (DAILY_USER_LIMIT - count (cells h2 rec)),
           globalLimit = DAILY_GLOBAL_LIMIT,
           userLimit = DAILY_USER_LIMIT,
           resetsAt = ''midnight UTC''\<rparr>, s2, h2))"

subsection \<open>One-time cover tokens\<close>

record token_entry =
  url :: string
  expiresAt :: int

type_synonym vault = "(string \<times> token_entry) list"

subsection \<open>Prompts and the cover URL\<close>

definition buildImagePrompt :: "ustring \<Rightarrow> ustring" where
  "buildImagePrompt v =
     utf16 ''Cinematic movie soundtrack album cover art. '' @ v @
     utf16 (''. Moody atmospheric lighting, dramatic composition, professional album artwork quality, '' @
       ''no text, no words, no letters, dark cinematic color palette with neon accents, '' @
       ''gritty photographic style, high contrast, volumetric lighting, 4k detailed'')"

text \<open>A non-negative integer in decimal, as a template literal renders it.\<close>

fun digits :: "nat \<Rightarrow> string" where
  "digits n =
     (if n < 10 then [char_of (48 + n)]
      else digits (n div 10) @ [char_of (48 + n mod 10)])"

definition numberToString :: "int \<Rightarrow> string" where
  "numberToString i = (if i < 0 then CHR ''-'' # digits (nat (- i)) else digits (nat i))"

text \<open>
  \<^verbatim>\<open>encodeURIComponent\<close>, as ECMAScript defines it. Letters, digits and
  \<^verbatim>\<open>- _ . ! ~ * ' ( )\<close> stay; every other code point is written as the \<^verbatim>\<open>%XX\<close> escapes of
  its UTF-8 bytes; a surrogate code unit that is not part of a pair makes the function
  throw \<^verbatim>\<open>URIError\<close>, which is the result \<open>None\<close>.
\<close>

definition unreserved :: "nat \<Rightarrow> bool" where
  "unreserved c =
     ((65 \<le> c \<and> c \<le> 90) \<or> (97 \<le> c \<and> c \<le> 122) \<or> (48 \<le> c \<and> c \<le> 57)
      \<or> c \<in> {45, 95, 46, 33, 126, 42, 39, 40, 41})"

definition hexDigit :: "nat \<Rightarrow> char" where
  "hexDigit n = (if n < 10 then char_of (48 + n) else char_of (55 + n))"

definition percent :: "nat \<Rightarrow> string" where
  "percent b = [CHR ''%'', hexDigit (b div 16), hexDigit (b mod 16)]"

definition utf8 :: "nat \<Rightarrow> nat list" where
  "utf8 v =
     (if v < 128 then [v]
      else if v < 2048 then [192 + v div 64, 128 + v mod 64]
      else if v < 65536 then [224 + v div 4096, 128 + v div 64 mod 64, 128 + v mod 64]
      else [240 + v div 262144, 128 + v div 4096 mod 64, 128 + v div 64 mod 64,
            128 + v mod 64])"

definition escape :: "nat \<Rightarrow> string" where
  "escape v = concat (map percent (utf8 v))"

definition isLeadSurrogate :: "nat \<Rightarrow> bool" where
  "isLeadSurrogate c = (55296 \<le> c \<and> c \<le> 56319)"

definition isTrailSurrogate :: "nat \<Rightarrow> bool" where
  "isTrailSurrogate c = (56320 \<le> c \<and> c \<le> 57343)"

fun encodeURIComponent :: "ustring \<Rightarrow> string option" where
  "encodeURIComponent [] = Some []"
| "encodeURIComponent (c # cs) =
     (if unreserved c then map_option ((#) (char_of c)) (encodeURIComponent cs)
      else if isTrailSurrogate c then None
      else if isLeadSurrogate c then
        (case cs of
           [] \<Rightarrow> None
         | d # ds \<Rightarrow>
             if isTrailSurrogate d
             then map_option ((@) (escape ((c - 55296) * 1024 + (d - 56320) + 65536)))
                    (encodeURIComponent ds)
             else None)
      else map_option ((@) (escape c)) (encodeURIComponent cs))"

text \<open>
  The template literal of \<^verbatim>\<open>imageUrl\<close>; \<open>None\<close> when one of its two
  \<^verbatim>\<open>encodeURIComponent\<close> calls throws.
\<close>

definition imageUrl :: "int \<Rightarrow> ustring \<Rightarrow> ustring \<Rightarrow> string option" where
  "imageUrl now v apiKey =
     (case encodeURIComponent (buildImagePrompt v) of
        None \<Rightarrow> None
      | Some imgPrompt \<Rightarrow>
          (case encodeURIComponent apiKey of
             None \<Rightarrow> None
           | Some k \<Rightarrow>
               Some (''https://gen.pollinations.ai/image/'' @ imgPrompt @
                     ''?model=flux&width=768&height=768&nologo=true&seed='' @
                     numberToString now @ ''&key='' @ k)))"

subsection \<open>The upstream text API\<close>

text \<open>A value that \<^verbatim>\<open>JSON.parse\<close> returns.\<close>

datatype json =
  JNull
| JBool bool
| JNum int
| JStr ustring
| JArr "json list"
| JObj "(ustring \<times> json) list"

text \<open>
  What the text API call comes to. \<^verbatim>\<open>fetch\<close> rejects, or it resolves to a response with
  its \<^verbatim>\<open>ok\<close> flag and \<^verbatim>\<open>status\<close>. Of an OK response the handler reads
  \<^verbatim>\<open>textData.choices?.[0]?.message?.content\<close>: \<open>BodyThrows\<close> when \<^verbatim>\<open>textRes.json()\<close> rejects or
  the property access throws, \<open>ContentFalsy\<close> when the value is undefined, null or another
  falsy non-string, \<open>ContentNotString\<close> when it is truthy and no string (so that
  \<^verbatim>\<open>content.match\<close> throws), \<open>Content c\<close> when it is the string \<open>c\<close>.
\<close>

datatype text_payload =
  BodyThrows
| ContentFalsy
| ContentNotString
| Content ustring

datatype upstream =
  FetchRejects
| TextResponse bool nat text_payload

text \<open>
  The error responses of the generate handler, one constructor for each message
  (\<open>GlobalLimit\<close> and \<open>UserLimit\<close> are the bodies with \<^verbatim>\<open>type: 'global_limit'\<close> and
  \<^verbatim>\<open>type: 'user_limit'\<close>; \<open>Thrown\<close> is the message of an exception the handler did not
  construct itself).
\<close>

datatype failure =
  GlobalLimit
| UserLimit
| VibeInvalid
| ApiKeyMissing
| ApiKeyInvalid
| BalanceExhausted
| TextApiError nat
| NoContent
| Unparseable
| EmptyTracklist
| Thrown

text \<open>
  The match of \<^verbatim>\<open>/```(?:json)?\s*([\s\S]*?)```/\<close>. \<open>afterFence\<close> is the text behind the first
  \<^verbatim>\<open>```\<close>, \<open>beforeFence\<close> the text in front of the first \<^verbatim>\<open>```\<close>. Neither \<^verbatim>\<open>json\<close> nor white
  space holds a backquote, so the greedy prefix never has to give anything back, and
  when no fence closes the first one no later position matches either.
\<close>

fun afterFence :: "ustring \<Rightarrow> ustring option" where
  "afterFence [] = None"
| "afterFence (c # cs) =
     (if take 3 (c # cs) = [96, 96, 96] then Some (drop 2 cs)
      else afterFence cs)"

fun beforeFence :: "ustring \<Rightarrow> ustring option" where
  "beforeFence [] = None"
| "beforeFence (c # cs) =
     (if take 3 (c # cs) = [96, 96, 96] then Some []
      else map_option ((#) c) (beforeFence cs))"

definition jsonMatch :: "ustring \<Rightarrow> ustring option" where
  "jsonMatch content =
     (case afterFence content of
        None \<Rightarrow> None
      | Some r \<Rightarrow>
          beforeFence
            (dropWhile isWhiteSpace (if take 4 r = utf16 ''json'' then drop 4 r else r)))"

definition jsonStr :: "ustring \<Rightarrow> ustring" where
  "jsonStr content = (case jsonMatch content of Some m \<Rightarrow> trim m | None \<Rightarrow> trim content)"

text \<open>
  \<^verbatim>\<open>!Array.isArray(tracklist.tracks) || tracklist.tracks.length === 0\<close>, with the
  \<^verbatim>\<open>TypeError\<close> of reading a property of \<^verbatim>\<open>null\<close>. \<open>None\<close> when the check passes.
\<close>

fun tracksCheck :: "json \<Rightarrow> failure option" where
  "tracksCheck JNull = Some Thrown"
| "tracksCheck (JObj props) =
     (case map_of props (utf16 ''tracks'') of
        Some (JArr (t # ts)) \<Rightarrow> None
      | _ \<Rightarrow> Some EmptyTracklist)"
| "tracksCheck _ = Some EmptyTracklist"

text \<open>
  The body of the \<^verbatim>\<open>try\<close> block up to the tracklist check: \<open>Inl\<close> the error it throws,
  \<open>Inr\<close> the tracklist. \<open>parse\<close> is \<^verbatim>\<open>JSON.parse\<close>, \<open>None\<close> where it throws.
\<close>

definition textApi :: "(ustring \<Rightarrow> json option) \<Rightarrow> upstream \<Rightarrow> failure + json" where
  "textApi parse textRes =
     (case textRes of
        FetchRejects \<Rightarrow> Inl Thrown
      | TextResponse ok code body \<Rightarrow>
          if \<not> ok then
            (if code = 401 then Inl ApiKeyInvalid
             else if code = 402 then Inl BalanceExhausted
             else Inl (TextApiError code))
          else
            (case body of
               BodyThrows \<Rightarrow> Inl Thrown
             | ContentFalsy \<Rightarrow> Inl NoContent
             | ContentNotString \<Rightarrow> Inl Thrown
             | Content content \<Rightarrow>
                 if content = [] then Inl NoContent
                 else
                   (case parse (jsonStr content) of
                      None \<Rightarrow> Inl Unparseable
                    | Some tracklist \<Rightarrow>
                        (case tracksCheck tracklist of
                           Some e \<Rightarrow> Inl e
                         | None \<Rightarrow> Inr tracklist))))"

subsection \<open>POST /api/generate\<close>

text \<open>
  What one run of the handler reads from the platform: \<^verbatim>\<open>todayUTC()\<close> and
  \<^verbatim>\<open>process.env.POLLINATIONS_API_KEY\<close> (\<open>None\<close> when unset) before the \<^verbatim>\<open>await\<close>; what the
  text API call comes to, \<^verbatim>\<open>JSON.parse\<close> (\<open>None\<close> where it throws), \<^verbatim>\<open>crypto.randomUUID()\<close>
  and \<^verbatim>\<open>Date.now()\<close> after it.
\<close>

record gen_env =
  todayUTC :: string
  POLLINATIONS_API_KEY :: "ustring option"
  textRes :: upstream
  JSON_parse :: "ustring \<Rightarrow> json option"
  randomUUID :: string
  Date_now :: int

record remaining =
  user :: int
  global :: int

text \<open>
  The response: an error with its HTTP status, or the body
  \<^verbatim>\<open>{ tracklist, coverToken, remaining }\<close> of a success.
\<close>

datatype gen_reply =
  Failed nat failure
| Generated json string remaining

text \<open>
  What the handler holds across the \<^verbatim>\<open>await\<close>: the constants \<^verbatim>\<open>ip\<close>, \<^verbatim>\<open>rec\<close> (the reference
  to the record object), \<^verbatim>\<open>vibe\<close> and \<^verbatim>\<open>apiKey\<close>.
\<close>

record gen_ctx =
  ctx_ip :: string
  ctx_rec :: addr
  ctx_vibe :: ustring
  ctx_apiKey :: ustring

text \<open>The first step ends with a response or at the \<^verbatim>\<open>await\<close> of the text API call.\<close>

datatype begun =
  Replied gen_reply
| Awaiting gen_ctx

text \<open>
  The handler up to the \<^verbatim>\<open>await fetch(...)\<close>: the lazy reset, the record, the two limit
  checks, the validation of the input and the check of the credential.
\<close>

definition generateBegin :: "gen_env \<Rightarrow> request \<Rightarrow> store \<Rightarrow> heap \<Rightarrow> begun \<times> store \<times> heap" where
  "generateBegin env req s h =
     (let s1 = resetIfNewDay (todayUTC env) s;
          ip = clientIp req;
          (rec, s2, h2) = userRecord (todayUTC env) ip s1 h
      in
        if globalCount s2 \<ge> DAILY_GLOBAL_LIMIT then (Replied (Failed 429 GlobalLimit), s2, h2)
        else if count (cells h2 rec) \<ge> DAILY_USER_LIMIT then
          (Replied (Failed 429 UserLimit), s2, h2)
        else
          (let v = (case vibe req of Some x \<Rightarrow> trim x | None \<Rightarrow> [])
           in
             if v = [] \<or> length v > 600 then (Replied (Failed 400 VibeInvalid), s2, h2)
             else
               (let apiKey = (case POLLINATIONS_API_KEY env of Some k \<Rightarrow> k | None \<Rightarrow> [])
                in
                  if apiKey = [] then (Replied (Failed 500 ApiKeyMissing), s2, h2)
                  else
                    (Awaiting \<lparr>ctx_ip = ip, ctx_rec = rec, ctx_vibe = v, ctx_apiKey = apiKey\<rparr>,
                     s2, h2))))"

text \<open>
  The outcome of a request: the response, the store, the heap and the cover tokens
  behind it, and the calls made to the text API, each with the bearer key and the vibe
  of its prompt.
\<close>

record gen_result =
  reply :: gen_reply
  store_after :: store
  heap_after :: heap
  tokens_after :: vault
  textCalls :: "(ustring \<times> ustring) list"

text \<open>
  The handler from the \<^verbatim>\<open>await\<close> on, run on the store, the heap and the tokens as they
  are when the text API call returns: the rest of the \<^verbatim>\<open>try\<close> block and its \<^verbatim>\<open>catch\<close>.
  \<^verbatim>\<open>rec.count++\<close> writes through the reference that the first step read.
\<close>

definition generateResume :: "gen_env \<Rightarrow> gen_ctx \<Rightarrow> store \<Rightarrow> heap \<Rightarrow> vault \<Rightarrow> gen_result" where
  "generateResume env ctx s h tokens =
     (case textApi (JSON_parse env) (textRes env) of
        Inl err \<Rightarrow>
          \<lparr>reply = Failed 500 err, store_after = s, heap_after = h, tokens_after = tokens,
           textCalls = [(ctx_apiKey ctx, ctx_vibe ctx)]\<rparr>
      | Inr tracklist \<Rightarrow>
          (case imageUrl (Date_now env) (ctx_vibe ctx) (ctx_apiKey ctx) of
             None \<Rightarrow>
               \<lparr>reply = Failed 500 Thrown, store_after = s, heap_after = h,
                tokens_after = tokens, textCalls = [(ctx_apiKey ctx, ctx_vibe ctx)]\<rparr>
           | Some coverUrl \<Rightarrow>
               (let token = randomUUID env;
                    tokens' = AList.update token
                      \<lparr>url = coverUrl, expiresAt = Date_now env + 5 * 60 * 1000\<rparr> tokens;
                    s' = s\<lparr>globalCount := globalCount s + 1\<rparr>;
                    rec = ctx_rec ctx;
                    h' = h\<lparr>cells := (cells h)(rec := (cells h rec)\<lparr>count := count (cells h rec) + 1\<rparr>)\<rparr>
                in \<lparr>reply = Generated tracklist token
                       \<lparr>user = max 0 (DAILY_USER_LIMIT - count (cells h' rec)),
                        global = max 0 (DAILY_GLOBAL_LIMIT - globalCount s')\<rparr>,
                     store_after = s', heap_after = h', tokens_after = tokens',
                     textCalls = [(ctx_apiKey ctx, ctx_vibe ctx)]\<rparr>)))"

text \<open>A request during whose \<^verbatim>\<open>await\<close> no other handler runs.\<close>

definition generate :: "gen_env \<Rightarrow> request \<Rightarrow> store \<Rightarrow> heap \<Rightarrow> vault \<Rightarrow> gen_result" where
  "generate env req s h tokens =
     (case generateBegin env req s h of
        (Replied r, s2, h2) \<Rightarrow>
          \<lparr>reply = r, store_after = s2, heap_after = h2, tokens_after = tokens, textCalls = []\<rparr>
      | (Awaiting ctx, s2, h2) \<Rightarrow> generateResume env ctx s2 h2 tokens)"

subsection \<open>GET /api/cover/:token\<close>

text \<open>
  What the image fetch comes to: \<^verbatim>\<open>fetch\<close> rejects, or it resolves to a response with its
  \<^verbatim>\<open>ok\<close> flag, its \<^verbatim>\<open>status\<close>, its \<^verbatim>\<open>content-type\<close> header (\<open>None\<close> when absent) and its
  bytes (\<open>None\<close> when \<^verbatim>\<open>arrayBuffer()\<close> rejects).
\<close>

datatype image_fetch =
  ImageRejects
| ImageResponse bool nat "string option" "nat list option"

datatype cover_failure =
  NotFound
| Expired
| ProxyError

text \<open>An image is sent with its \<^verbatim>\<open>Content-Type\<close>, its \<^verbatim>\<open>Cache-Control\<close> and its bytes.\<close>

datatype cover_reply =
  CoverFailed nat cover_failure
| Image string string "nat list"

record cover_result =
  cover_reply :: cover_reply
  cover_tokens :: vault
  fetched :: "string list"

definition cover :: "int \<Rightarrow> image_fetch \<Rightarrow> string \<Rightarrow> vault \<Rightarrow> cover_result" where
  "cover now imgRes token tokens =
     (case map_of tokens token of
        None \<Rightarrow>
          \<lparr>cover_reply = CoverFailed 404 NotFound, cover_tokens = tokens, fetched = []\<rparr>
      | Some entry \<Rightarrow>
          if now > expiresAt entry then
            \<lparr>cover_reply = CoverFailed 410 Expired,
             cover_tokens = AList.delete token tokens, fetched = []\<rparr>
          else
            (case imgRes of
               ImageResponse True c ctype (Some buffer) \<Rightarrow>
                 \<lparr>cover_reply = Image (orElse ctype ''image/jpeg'') ''public, max-age=86400'' buffer,
                  cover_tokens = AList.delete token tokens, fetched = [url entry]\<rparr>
             | _ \<Rightarrow>
                 \<lparr>cover_reply = CoverFailed 502 ProxyError, cover_tokens = tokens,
                  fetched = [url entry]\<rparr>))"

subsection \<open>Periodic cleanup of expired tokens\<close>

text \<open>
  The \<^verbatim>\<open>for ... of\<close> loop over the entries of the map, deleting from the map as it goes;
  it only ever deletes the entry it is visiting.
\<close>

fun sweepLoop :: "int \<Rightarrow> (string \<times> token_entry) list \<Rightarrow> vault \<Rightarrow> vault" where
  "sweepLoop now [] tokens = tokens"
| "sweepLoop now ((tok, entry) # rest) tokens =
     sweepLoop now rest (if now > expiresAt entry then AList.delete tok tokens else tokens)"

definition sweep :: "int \<Rightarrow> vault \<Rightarrow> vault" where
  "sweep now tokens = sweepLoop now tokens tokens"

subsection \<open>Observations on a run\<close>

text \<open>The record stored under a client's key, as \<^verbatim>\<open>store.users.get(ip)\<close> finds it.\<close>

definition entryOf :: "store \<Rightarrow> heap \<Rightarrow> string \<Rightarrow> user_rec option" where
  "entryOf s h ip = map_option (cells h) (map_of (users s) ip)"

text \<open>
  The count the handlers read for a client: \<^verbatim>\<open>userRecord(ip).count\<close>. A record whose date
  is not today's counts as \<open>0\<close>, like a missing one.
\<close>

definition clientCount :: "string \<Rightarrow> string \<Rightarrow> store \<Rightarrow> heap \<Rightarrow> int" where
  "clientCount today ip s h =
     (case userRecord today ip s h of (rec, s2, h2) \<Rightarrow> count (cells h2 rec))"

text \<open>The count stored under a client's key, \<open>0\<close> when the key is missing.\<close>

definition storedCount :: "string \<Rightarrow> store \<Rightarrow> heap \<Rightarrow> int" where
  "storedCount ip s h = (case entryOf s h ip of None \<Rightarrow> 0 | Some rec \<Rightarrow> count rec)"

text \<open>
  Every record in the map carries the store's reset date. The initial store has no
  record, and the handlers keep the property (\<open>wellDated_status\<close>, \<open>wellDated_generateBegin\<close>
  and \<open>wellDated_generateResume\<close> below).
\<close>

definition wellDated :: "store \<Rightarrow> heap \<Rightarrow> bool" where
  "wellDated s h = (\<forall>p \<in> set (users s). date (cells h (snd p)) = resetDate s)"

definition isGenerated :: "gen_reply \<Rightarrow> bool" where
  "isGenerated r = (case r of Generated tracklist token rem \<Rightarrow> True | Failed n f \<Rightarrow> False)"

text \<open>The input passes validation: a string, not empty once trimmed, of at most 600 units then.\<close>

definition validVibe :: "request \<Rightarrow> bool" where
  "validVibe req =
     (case vibe req of None \<Rightarrow> False | Some x \<Rightarrow> trim x \<noteq> [] \<and> length (trim x) \<le> 600)"

definition hasApiKey :: "gen_env \<Rightarrow> bool" where
  "hasApiKey env = (case POLLINATIONS_API_KEY env of None \<Rightarrow> False | Some k \<Rightarrow> k \<noteq> [])"

text \<open>
  The generation succeeds upstream: the call returns an OK response with a content,
  the content parses as JSON, and the parsed object has a non-empty list of tracks.
\<close>

definition fullySucceeds :: "gen_env \<Rightarrow> bool" where
  "fullySucceeds env =
     (case textRes env of
        TextResponse True code (Content content) \<Rightarrow>
          content \<noteq> [] \<and>
          (case JSON_parse env (jsonStr content) of
             Some (JObj props) \<Rightarrow>
               (case map_of props (utf16 ''tracks'') of
                  Some (JArr (t # ts)) \<Rightarrow> True
                | _ \<Rightarrow> False)
           | _ \<Rightarrow> False)
      | _ \<Rightarrow> False)"

text \<open>
  The cover URL can be built: neither \<^verbatim>\<open>encodeURIComponent\<close> call throws on a vibe and a
  key.
\<close>

definition coverUrlBuilds :: "ustring \<Rightarrow> ustring \<Rightarrow> bool" where
  "coverUrlBuilds v k =
     (encodeURIComponent (buildImagePrompt v) \<noteq> None \<and> encodeURIComponent k \<noteq> None)"

text \<open>The vibe and the key that a request goes upstream with.\<close>

definition sentVibe :: "request \<Rightarrow> ustring" where
  "sentVibe req = (case vibe req of Some x \<Rightarrow> trim x | None \<Rightarrow> [])"

definition sentKey :: "gen_env \<Rightarrow> ustring" where
  "sentKey env = (case POLLINATIONS_API_KEY env of Some k \<Rightarrow> k | None \<Rightarrow> [])"

text \<open>A string without a surrogate code unit that is not part of a pair.\<close>

fun wellFormed :: "ustring \<Rightarrow> bool" where
  "wellFormed [] = True"
| "wellFormed (c # cs) =
     (if isTrailSurrogate c then False
      else if isLeadSurrogate c then
        (case cs of [] \<Rightarrow> False | d # ds \<Rightarrow> isTrailSurrogate d \<and> wellFormed ds)
      else wellFormed cs)"

text \<open>The image fetch delivers: an OK response whose bytes can be read.\<close>

definition delivered :: "image_fetch \<Rightarrow> bool" where
  "delivered imgRes =
     (case imgRes of ImageResponse True c ctype (Some buffer) \<Rightarrow> True | _ \<Rightarrow> False)"

subsection \<open>Example inputs\<close>

definition day1 :: string where
  "day1 = ''2024-01-01''"

definition day2 :: string where
  "day2 = ''2024-01-02''"

definition alice :: request where
  "alice = \<lparr>forwardedFor = None, reqIp = Some ''10.0.0.1'', remoteAddress = None,
     vibe = Some (utf16 ''neon rain'')\<rparr>"

definition bob :: request where
  "bob = \<lparr>forwardedFor = None, reqIp = Some ''10.0.0.2'', remoteAddress = None, vibe = None\<rparr>"

text \<open>
  An answer of the text API, the JSON text \<^verbatim>\<open>{"tracks":["t1"]}\<close>, the value that
  \<^verbatim>\<open>JSON.parse\<close> makes of it, and \<^verbatim>\<open>JSON.parse\<close> as far as the example runs call it.
\<close>

definition goodContent :: ustring where
  "goodContent =
     [123, 34] @ utf16 ''tracks'' @ [34, 58, 91, 34] @ utf16 ''t1'' @ [34, 93, 125]"

definition goodTracklist :: json where
  "goodTracklist = JObj [(utf16 ''tracks'', JArr [JStr (utf16 ''t1'')])]"

definition parseGood :: "ustring \<Rightarrow> json option" where
  "parseGood str = (if str = goodContent then Some goodTracklist else None)"

definition envOk :: gen_env where
  "envOk = \<lparr>todayUTC = day2, POLLINATIONS_API_KEY = Some (utf16 ''k''),
     textRes = TextResponse True 200 (Content goodContent), JSON_parse = parseGood,
     randomUUID = ''u1'', Date_now = 1000\<rparr>"

definition envDown :: gen_env where
  "envDown = envOk\<lparr>textRes := TextResponse False 503 BodyThrows\<rparr>"

text \<open>A heap that holds the given records at the addresses \<open>0\<close>, \<open>1\<close>, ...\<close>

definition heapOf :: "user_rec list \<Rightarrow> heap" where
  "heapOf recs =
     \<lparr>cells = (\<lambda>a. if a < length recs then recs ! a else \<lparr>count = 0, date = []\<rparr>),
      nextAddr = length recs\<rparr>"

definition emptyStore :: store where
  "emptyStore = \<lparr>globalCount = 0, resetDate = day2, users = []\<rparr>"



definition busyStore :: store where
  "busyStore = \<lparr>globalCount = 3, resetDate = day2,
     users = [(''10.0.0.1'', 0), (''10.0.0.2'', 1)]\<rparr>"

definition busyHeap :: heap where
  "busyHeap = heapOf [\<lparr>count = 1, date = day2\<rparr>, \<lparr>count = 2, date = day2\<rparr>]"

definition fullStore :: store where
  "fullStore = \<lparr>globalCount = 11, resetDate = day2,
     users = [(''10.0.0.2'', 0), (''10.0.0.3'', 1), (''10.0.0.4'', 2), (''10.0.0.5'', 3),
              (''10.0.0.6'', 4), (''10.0.0.7'', 5)]\<rparr>"

definition fullHeap :: heap where
  "fullHeap = heapOf [\<lparr>count = 2, date = day2\<rparr>, \<lparr>count = 2, date = day2\<rparr>,
     \<lparr>count = 2, date = day2\<rparr>, \<lparr>count = 2, date = day2\<rparr>, \<lparr>count = 2, date = day2\<rparr>,
     \<lparr>count = 1, date = day2\<rparr>]"

definition spentStore :: store where
  "spentStore = \<lparr>globalCount = 2, resetDate = day2, users = [(''10.0.0.1'', 0)]\<rparr>"

definition spentHeap :: heap where
  "spentHeap = heapOf [\<lparr>count = 2, date = day2\<rparr>]"

definition overStore :: store where
  "overStore = \<lparr>globalCount = 50, resetDate = day2, users = [(''10.0.0.1'', 0)]\<rparr>"

definition overHeap :: heap where
  "overHeap = heapOf [\<lparr>count = 7, date = day2\<rparr>]"

text \<open>
  An input of 601 characters, the last one a space, one of 601 letters, and one that is
  a single lead surrogate.
\<close>

definition paddedVibe :: ustring where
  "paddedVibe = utf16 (replicate 600 (CHR ''a'') @ '' '')"

definition longVibe :: ustring where
  "longVibe = utf16 (replicate 601 (CHR ''a''))"

definition loneSurrogate :: ustring where
  "loneSurrogate = [55296]"

definition okImage :: image_fetch where
  "okImage = ImageResponse True 200 (Some ''image/png'') (Some [137, 80, 78, 71])"

definition vault1 :: vault where
  "vault1 = [(''u1'', \<lparr>url = ''https://img/1'', expiresAt = 1000\<rparr>)]"

definition vault3 :: vault where
  "vault3 = [(''a'', \<lparr>url = ''https://img/a'', expiresAt = 900\<rparr>),
             (''b'', \<lparr>url = ''https://img/b'', expiresAt = 1000\<rparr>),
             (''c'', \<lparr>url = ''https://img/c'', expiresAt = 1100\<rparr>)]"

text \<open>
  A request of 10.0.0.1 that starts on the first day and awaits the text API while the
  day changes: a status request of 10.0.0.2 runs on the second day, and then the text
  API call returns.
\<close>

definition day1Store :: store where
  "day1Store = \<lparr>globalCount = 0, resetDate = day1, users = []\<rparr>"

definition aliceCtx :: gen_ctx where
  "aliceCtx = \<lparr>ctx_ip = ''10.0.0.1'', ctx_rec = 0, ctx_vibe = utf16 ''neon rain'',
     ctx_apiKey = utf16 ''k''\<rparr>"

definition envDay1 :: gen_env where
  "envDay1 = envOk\<lparr>todayUTC := day1\<rparr>"

definition begunOnDay1 :: "begun \<times> store \<times> heap" where
  "begunOnDay1 = generateBegin envDay1 alice day1Store (heapOf [])"

definition afterBob :: "status_body \<times> store \<times> heap" where
  "afterBob = status day2 bob (fst (snd begunOnDay1)) (snd (snd begunOnDay1))"

definition resumedOnDay2 :: gen_result where
  "resumedOnDay2 = generateResume envOk aliceCtx (fst (snd afterBob)) (snd (snd afterBob)) []"

section \<open>Properties\<close>

subsection \<open>The store's operations\<close>


lemma resetIfNewDay_date: "resetDate (resetIfNewDay today s) = today"
  by (simp add: resetIfNewDay_def)

lemma resetIfNewDay_same: "resetDate s = today \<Longrightarrow> resetIfNewDay today s = s"
  by (simp add: resetIfNewDay_def)


text \<open>A new address is none of the map's and none handed out before.\<close>

lemma fold_max_bounds:
  "m \<le> fold (\<lambda>p m. max m (Suc (snd p))) xs m \<and>
   (\<forall>p \<in> set xs. snd p < fold (\<lambda>p m. max m (Suc (snd p))) xs m)"
proof (induction xs arbitrary: m)
  case Nil
  show ?case by simp
next
  case (Cons x xs)
  from Cons.IH [of "max m (Suc (snd x))"] show ?case
    by (auto simp add: max_def split: if_splits)
qed

lemma fresh_above_map: "(ip, a) \<in> set (users s) \<Longrightarrow> a < fresh s h"
  using fold_max_bounds [of "nextAddr h" "users s"] by (auto simp add: fresh_def)

lemma fresh_above_next: "nextAddr h \<le> fresh s h"
  using fold_max_bounds [of "nextAddr h" "users s"] by (simp add: fresh_def)

lemma fresh_not_stored: "map_of (users s) ip = Some a \<Longrightarrow> a \<noteq> fresh s h"
  using fresh_above_map [of ip a s h] by (auto dest: map_of_SomeD)

text \<open>\<^verbatim>\<open>userRecord\<close> either finds a record of today or stores a new one.\<close>

lemma userRecord_kept:
  "map_of (users s) ip = Some rec \<Longrightarrow> date (cells h rec) = today \<Longrightarrow>
   userRecord today ip s h = (rec, s, h)"
  by (simp add: userRecord_def)

lemma userRecord_created:
  "(\<forall>rec. map_of (users s) ip = Some rec \<longrightarrow> date (cells h rec) \<noteq> today) \<Longrightarrow>
   userRecord today ip s h =
     (fresh s h,
      s\<lparr>users := AList.update ip (fresh s h) (users s)\<rparr>,
      h\<lparr>cells := (cells h)(fresh s h := \<lparr>count = 0, date = today\<rparr>),
        nextAddr := Suc (fresh s h)\<rparr>)"
  by (auto simp add: userRecord_def Let_def split: option.splits)

lemma userRecord_store:
  assumes "userRecord today ip s h = (rec, s2, h2)"
  shows "globalCount s2 = globalCount s" and "resetDate s2 = resetDate s"
    and "map_of (users s2) ip = Some rec" and "date (cells h2 rec) = today"
    and "ip' \<noteq> ip \<Longrightarrow> map_of (users s2) ip' = map_of (users s) ip'"
  using assms
  by (auto simp add: userRecord_def Let_def update_conv' split: option.splits if_splits)

lemma userRecord_others:
  assumes "userRecord today ip s h = (rec, s2, h2)" and "ip' \<noteq> ip"
  shows "entryOf s2 h2 ip' = entryOf s h ip'"
proof (cases "map_of (users s) ip'")
  case None
  with assms show ?thesis
    by (simp add: entryOf_def userRecord_store(5) [OF assms(1)])
next
  case (Some a)
  then have "a \<noteq> fresh s h" by (rule fresh_not_stored)
  with assms Some show ?thesis
    by (auto simp add: entryOf_def userRecord_def Let_def update_conv'
        split: option.splits if_splits)
qed

lemma userRecord_idem:
  assumes "userRecord today ip s h = (rec, s2, h2)"
  shows "userRecord today ip s2 h2 = (rec, s2, h2)"
  using userRecord_store(3,4) [OF assms] by (rule userRecord_kept)

lemma userRecord_count:
  assumes "userRecord today ip s h = (rec, s2, h2)"
  shows "count (cells h2 rec) = clientCount today ip s h"
  using assms by (simp add: clientCount_def)

lemma userRecord_entry:
  assumes "userRecord today ip s h = (rec, s2, h2)"
  shows "entryOf s2 h2 ip = Some \<lparr>count = clientCount today ip s h, date = today\<rparr>"
  using userRecord_store(3,4) [OF assms] userRecord_count [OF assms]
  by (cases "cells h2 rec") (simp add: entryOf_def)

lemma clientCount_entry:
  "clientCount today ip s h =
     (case entryOf s h ip of
        None \<Rightarrow> 0
      | Some rec \<Rightarrow> if date rec = today then count rec else 0)"
  by (auto simp add: clientCount_def userRecord_def entryOf_def Let_def split: option.splits)

lemma userRecord_clientCount:
  assumes "userRecord today ip s h = (rec, s2, h2)"
  shows "clientCount today ip' s2 h2 = clientCount today ip' s h"
proof (cases "ip' = ip")
  case True
  then show ?thesis
    using userRecord_idem [OF assms] assms by (simp add: clientCount_def)
next
  case False
  then show ?thesis
    by (simp add: clientCount_entry userRecord_others [OF assms])
qed

subsection \<open>The handlers, unfolded\<close>

lemma status_unfold:
  "status today req s h =
     (case userRecord today (clientIp req) (resetIfNewDay today s) h of
        (rec, s2, h2) \<Rightarrow>
          (\<lparr>globalRemaining = max 0 (DAILY_GLOBAL_LIMIT - globalCount (resetIfNewDay today s)),
            userRemaining =
              max 0 (DAILY_USER_LIMIT -
                clientCount today (clientIp req) (resetIfNewDay today s) h),
            globalLimit = DAILY_GLOBAL_LIMIT, userLimit = DAILY_USER_LIMIT,
            resetsAt = ''midnight UTC''\<rparr>, s2, h2))"
proof -
  obtain rec s2 h2
    where ur: "userRecord today (clientIp req) (resetIfNewDay today s) h = (rec, s2, h2)"
    by (cases "userRecord today (clientIp req) (resetIfNewDay today s) h")
  show ?thesis
    by (simp add: status_def Let_def ur userRecord_store(1) [OF ur] userRecord_count [OF ur])
qed


lemma generateBegin_unfold:
  "generateBegin env req s h =
     (case userRecord (todayUTC env) (clientIp req) (resetIfNewDay (todayUTC env) s) h of
        (rec, s2, h2) \<Rightarrow>
          (if \<not> globalCount (resetIfNewDay (todayUTC env) s) < DAILY_GLOBAL_LIMIT
           then Replied (Failed 429 GlobalLimit)
           else if \<not> clientCount (todayUTC env) (clientIp req)
                       (resetIfNewDay (todayUTC env) s) h < DAILY_USER_LIMIT
           then Replied (Failed 429 UserLimit)
           else if \<not> validVibe req then Replied (Failed 400 VibeInvalid)
           else if \<not> hasApiKey env then Replied (Failed 500 ApiKeyMissing)
           else Awaiting \<lparr>ctx_ip = clientIp req, ctx_rec = rec, ctx_vibe = sentVibe req,
                  ctx_apiKey = sentKey env\<rparr>,
           s2, h2))"
proof -
  obtain rec s2 h2
    where ur: "userRecord (todayUTC env) (clientIp req) (resetIfNewDay (todayUTC env) s) h
      = (rec, s2, h2)"
    by (cases "userRecord (todayUTC env) (clientIp req) (resetIfNewDay (todayUTC env) s) h")
  show ?thesis
    by (auto simp add: generateBegin_def Let_def ur userRecord_store(1) [OF ur]
        userRecord_count [OF ur] validVibe_def hasApiKey_def sentVibe_def sentKey_def
        split: option.splits)
qed



text \<open>What the second step answers depends on the upstream outcome and the cover URL only.\<close>

lemma tracksCheck_None_iff:
  "tracksCheck j = None \<longleftrightarrow>
   (\<exists>props t ts. j = JObj props \<and> map_of props (utf16 ''tracks'') = Some (JArr (t # ts)))"
  by (cases j) (auto split: option.splits json.splits list.splits)

lemma textApi_Inr_iff:
  "(\<exists>t. textApi (JSON_parse env) (textRes env) = Inr t) \<longleftrightarrow> fullySucceeds env"
  unfolding textApi_def fullySucceeds_def
  by (auto split: upstream.splits text_payload.splits option.splits bool.splits json.splits
      list.splits simp: tracksCheck_None_iff)

lemma imageUrl_Some_iff: "(\<exists>u. imageUrl now v k = Some u) \<longleftrightarrow> coverUrlBuilds v k"
  by (auto simp add: imageUrl_def coverUrlBuilds_def split: option.splits)

lemma generateResume_reply:
  "isGenerated (reply (generateResume env ctx s h tokens)) \<longleftrightarrow>
     fullySucceeds env \<and> coverUrlBuilds (ctx_vibe ctx) (ctx_apiKey ctx)"
  using textApi_Inr_iff [of env]
    imageUrl_Some_iff [of "Date_now env" "ctx_vibe ctx" "ctx_apiKey ctx"]
  by (auto simp add: generateResume_def Let_def isGenerated_def split: sum.splits option.splits)

lemma generateResume_failed:
  assumes "\<not> isGenerated (reply (generateResume env ctx s h tokens))"
  shows "store_after (generateResume env ctx s h tokens) = s"
    and "heap_after (generateResume env ctx s h tokens) = h"
    and "tokens_after (generateResume env ctx s h tokens) = tokens"
  using assms
  by (auto simp add: generateResume_def Let_def isGenerated_def split: sum.splits option.splits)

lemma generateResume_generated:
  assumes "isGenerated (reply (generateResume env ctx s h tokens))"
  shows "store_after (generateResume env ctx s h tokens) = s\<lparr>globalCount := globalCount s + 1\<rparr>"
    and "heap_after (generateResume env ctx s h tokens) =
           h\<lparr>cells := (cells h)(ctx_rec ctx :=
                (cells h (ctx_rec ctx))\<lparr>count := count (cells h (ctx_rec ctx)) + 1\<rparr>)\<rparr>"
  using assms
  by (auto simp add: generateResume_def Let_def isGenerated_def split: sum.splits option.splits)

lemma generateResume_status:
  "reply (generateResume env ctx s h tokens) \<noteq> Failed 429 f"
  "reply (generateResume env ctx s h tokens) \<noteq> Failed 400 f"
  by (auto simp add: generateResume_def Let_def split: sum.splits option.splits)

lemma generateResume_remaining:
  assumes "reply (generateResume env ctx s h tokens) = Generated tracklist token r"
  shows "global r =
           max 0 (DAILY_GLOBAL_LIMIT - globalCount (store_after (generateResume env ctx s h tokens)))"
    and "user r =
           max 0 (DAILY_USER_LIMIT -
             count (cells (heap_after (generateResume env ctx s h tokens)) (ctx_rec ctx)))"
  using assms
  by (auto simp add: generateResume_def Let_def split: sum.splits option.splits)

text \<open>A request with no other handler in between, in terms of its two steps.\<close>

lemma generate_unfold:
  "generate env req s h tokens =
     (case userRecord (todayUTC env) (clientIp req) (resetIfNewDay (todayUTC env) s) h of
        (rec, s2, h2) \<Rightarrow>
          if \<not> globalCount (resetIfNewDay (todayUTC env) s) < DAILY_GLOBAL_LIMIT then
            \<lparr>reply = Failed 429 GlobalLimit, store_after = s2, heap_after = h2,
             tokens_after = tokens, textCalls = []\<rparr>
          else if \<not> clientCount (todayUTC env) (clientIp req)
                      (resetIfNewDay (todayUTC env) s) h < DAILY_USER_LIMIT then
            \<lparr>reply = Failed 429 UserLimit, store_after = s2, heap_after = h2,
             tokens_after = tokens, textCalls = []\<rparr>
          else if \<not> validVibe req then
            \<lparr>reply = Failed 400 VibeInvalid, store_after = s2, heap_after = h2,
             tokens_after = tokens, textCalls = []\<rparr>
          else if \<not> hasApiKey env then
            \<lparr>reply = Failed 500 ApiKeyMissing, store_after = s2, heap_after = h2,
             tokens_after = tokens, textCalls = []\<rparr>
          else
            generateResume env
              \<lparr>ctx_ip = clientIp req, ctx_rec = rec, ctx_vibe = sentVibe req,
               ctx_apiKey = sentKey env\<rparr> s2 h2 tokens)"
  by (simp add: generate_def generateBegin_unfold split: prod.splits)

subsection \<open>Every record carries the reset date\<close>

lemma wellDated_clientCount:
  assumes "wellDated s h"
  shows "clientCount (resetDate s) ip s h = storedCount ip s h"
proof (cases "map_of (users s) ip")
  case None
  then show ?thesis by (simp add: clientCount_entry storedCount_def entryOf_def)
next
  case (Some a)
  then have "(ip, a) \<in> set (users s)" by (rule map_of_SomeD)
  with assms have "date (cells h a) = resetDate s" by (auto simp add: wellDated_def)
  with Some show ?thesis by (simp add: clientCount_entry storedCount_def entryOf_def)
qed

lemma wellDated_resetIfNewDay: "wellDated s h \<Longrightarrow> wellDated (resetIfNewDay today s) h"
  by (simp add: resetIfNewDay_def wellDated_def)

lemma set_update_subset: "set (AList.update k v xs) \<subseteq> insert (k, v) (set xs)"
  by (induction xs) auto

lemma wellDated_userRecord:
  assumes "wellDated s h" and "resetDate s = today"
    and ur: "userRecord today ip s h = (rec, s2, h2)"
  shows "wellDated s2 h2"
proof (cases "\<exists>a. map_of (users s) ip = Some a \<and> date (cells h a) = today")
  case True
  then obtain a where "map_of (users s) ip = Some a" "date (cells h a) = today" by blast
  from userRecord_kept [OF this] ur assms(1) show ?thesis by simp
next
  case False
  then have "\<forall>a. map_of (users s) ip = Some a \<longrightarrow> date (cells h a) \<noteq> today" by blast
  from userRecord_created [OF this] ur
  have s2: "s2 = s\<lparr>users := AList.update ip (fresh s h) (users s)\<rparr>"
    and h2: "h2 = h\<lparr>cells := (cells h)(fresh s h := \<lparr>count = 0, date = today\<rparr>),
        nextAddr := Suc (fresh s h)\<rparr>"
    by simp_all
  have "date (cells h2 (snd p)) = resetDate s2" if "p \<in> set (users s2)" for p
  proof -
    from that have "p = (ip, fresh s h) \<or> p \<in> set (users s)"
      using set_update_subset [of ip "fresh s h" "users s"] by (auto simp add: s2)
    then show ?thesis
    proof
      assume "p = (ip, fresh s h)"
      then show ?thesis by (simp add: s2 h2 assms(2))
    next
      assume old: "p \<in> set (users s)"
      then have "snd p \<noteq> fresh s h"
        using fresh_above_map [of "fst p" "snd p" s h] by auto
      with old assms(1) show ?thesis by (simp add: s2 h2 wellDated_def)
    qed
  qed
  then show ?thesis by (simp add: wellDated_def)
qed

lemma wellDated_status:
  assumes "wellDated s h" and "status today req s h = (body, s2, h2)"
  shows "wellDated s2 h2"
proof -
  obtain rec s' h'
    where ur: "userRecord today (clientIp req) (resetIfNewDay today s) h = (rec, s', h')"
    by (cases "userRecord today (clientIp req) (resetIfNewDay today s) h")
  from assms(2) have "s2 = s'" "h2 = h'" by (simp_all add: status_unfold ur)
  with wellDated_userRecord [OF wellDated_resetIfNewDay [OF assms(1)] resetIfNewDay_date ur]
  show ?thesis by simp
qed

lemma wellDated_generateBegin:
  assumes "wellDated s h" and "generateBegin env req s h = (b, s2, h2)"
  shows "wellDated s2 h2"
proof -
  obtain rec s' h'
    where ur: "userRecord (todayUTC env) (clientIp req) (resetIfNewDay (todayUTC env) s) h
      = (rec, s', h')"
    by (cases "userRecord (todayUTC env) (clientIp req) (resetIfNewDay (todayUTC env) s) h")
  from assms(2) have "s2 = s'" "h2 = h'" by (simp_all add: generateBegin_unfold ur)
  with wellDated_userRecord [OF wellDated_resetIfNewDay [OF assms(1)] resetIfNewDay_date ur]
  show ?thesis by simp
qed

lemma wellDated_generateResume:
  assumes "wellDated s h"
  shows "wellDated (store_after (generateResume env ctx s h tokens))
           (heap_after (generateResume env ctx s h tokens))"
  using assms
  by (auto simp add: generateResume_def Let_def wellDated_def split: sum.splits option.splits)

lemma wellDated_generate:
  assumes "wellDated s h"
  shows "wellDated (store_after (generate env req s h tokens))
           (heap_after (generate env req s h tokens))"
proof (cases "generateBegin env req s h")
  case (fields b s2 h2)
  from wellDated_generateBegin [OF assms fields] have wd: "wellDated s2 h2" .
  show ?thesis
  proof (cases b)
    case (Replied r)
    with fields wd show ?thesis by (simp add: generate_def)
  next
    case (Awaiting ctx)
    with fields wellDated_generateResume [OF wd, of env ctx tokens] show ?thesis
      by (simp add: generate_def)
  qed
qed

lemma resetDate_generate: "resetDate (store_after (generate env req s h tokens)) = todayUTC env"
proof -
  obtain rec s2 h2
    where ur: "userRecord (todayUTC env) (clientIp req) (resetIfNewDay (todayUTC env) s) h
      = (rec, s2, h2)"
    by (cases "userRecord (todayUTC env) (clientIp req) (resetIfNewDay (todayUTC env) s) h")
  have "resetDate s2 = todayUTC env"
    by (simp add: userRecord_store(2) [OF ur] resetIfNewDay_date)
  then show ?thesis
    by (simp add: generate_unfold ur generateResume_def Let_def split: sum.splits option.splits)
qed

subsection \<open>The counters along a request\<close>

lemma isGenerated_Failed: "\<not> isGenerated (Failed n f)"
  by (simp add: isGenerated_def)

lemma isGenerated_generate:
  "isGenerated (reply (generate env req s h tokens)) \<longleftrightarrow>
     globalCount (resetIfNewDay (todayUTC env) s) < DAILY_GLOBAL_LIMIT \<and>
     clientCount (todayUTC env) (clientIp req) (resetIfNewDay (todayUTC env) s) h
       < DAILY_USER_LIMIT \<and>
     validVibe req \<and> hasApiKey env \<and> fullySucceeds env \<and>
     coverUrlBuilds (sentVibe req) (sentKey env)"
  by (simp add: generate_unfold generateResume_reply isGenerated_Failed split: prod.splits)

lemma globalCount_generate:
  "globalCount (store_after (generate env req s h tokens)) =
     globalCount (resetIfNewDay (todayUTC env) s) +
     (if isGenerated (reply (generate env req s h tokens)) then 1 else 0)"
proof -
  obtain rec s2 h2
    where ur: "userRecord (todayUTC env) (clientIp req) (resetIfNewDay (todayUTC env) s) h
      = (rec, s2, h2)"
    by (cases "userRecord (todayUTC env) (clientIp req) (resetIfNewDay (todayUTC env) s) h")
  let ?ctx = "\<lparr>ctx_ip = clientIp req, ctx_rec = rec, ctx_vibe = sentVibe req,
    ctx_apiKey = sentKey env\<rparr>"
  have "globalCount (store_after (generateResume env ?ctx s2 h2 tokens)) =
      globalCount s2 + (if isGenerated (reply (generateResume env ?ctx s2 h2 tokens)) then 1 else 0)"
    using generateResume_failed(1) [of env ?ctx s2 h2 tokens]
      generateResume_generated(1) [of env ?ctx s2 h2 tokens]
    by (cases "isGenerated (reply (generateResume env ?ctx s2 h2 tokens))") simp_all
  then show ?thesis
    by (simp add: generate_unfold ur userRecord_store(1) [OF ur] isGenerated_Failed)
qed

lemma clientCount_generate:
  "clientCount (todayUTC env) (clientIp req)
     (store_after (generate env req s h tokens)) (heap_after (generate env req s h tokens)) =
     clientCount (todayUTC env) (clientIp req) (resetIfNewDay (todayUTC env) s) h +
     (if isGenerated (reply (generate env req s h tokens)) then 1 else 0)"
proof -
  let ?today = "todayUTC env" and ?ip = "clientIp req"
  let ?s1 = "resetIfNewDay (todayUTC env) s"
  obtain rec s2 h2 where ur: "userRecord ?today ?ip ?s1 h = (rec, s2, h2)"
    by (cases "userRecord ?today ?ip ?s1 h")
  let ?ctx = "\<lparr>ctx_ip = ?ip, ctx_rec = rec, ctx_vibe = sentVibe req, ctx_apiKey = sentKey env\<rparr>"
  let ?r = "generateResume env ?ctx s2 h2 tokens"
  have kept: "clientCount ?today ?ip s2 h2 = clientCount ?today ?ip ?s1 h"
    by (rule userRecord_clientCount [OF ur])
  have resumed: "clientCount ?today ?ip (store_after ?r) (heap_after ?r) =
      clientCount ?today ?ip ?s1 h + (if isGenerated (reply ?r) then 1 else 0)"
  proof (cases "isGenerated (reply ?r)")
    case False
    with generateResume_failed(1,2) [OF False] kept show ?thesis by simp
  next
    case True
    have "userRecord ?today ?ip (store_after ?r) (heap_after ?r) =
        (rec, store_after ?r, heap_after ?r)"
      using userRecord_store(3,4) [OF ur]
      by (intro userRecord_kept) (simp_all add: generateResume_generated [OF True])
    then have "clientCount ?today ?ip (store_after ?r) (heap_after ?r) =
        count (cells h2 rec) + 1"
      by (simp add: clientCount_def generateResume_generated(2) [OF True])
    with True show ?thesis by (simp add: userRecord_count [OF ur])
  qed
  show ?thesis
    using resumed kept by (simp add: generate_unfold ur isGenerated_Failed)
qed

subsection \<open>When the cover URL can be built\<close>

lemma unreserved_no_surrogate: "unreserved c \<Longrightarrow> \<not> isTrailSurrogate c \<and> \<not> isLeadSurrogate c"
  by (auto simp add: unreserved_def isTrailSurrogate_def isLeadSurrogate_def)

lemma encodeURIComponent_wellFormed: "encodeURIComponent str \<noteq> None \<longleftrightarrow> wellFormed str"
proof (induction str rule: encodeURIComponent.induct)
  case 1
  show ?case by simp
next
  case (2 c cs)
  show ?case
  proof (cases "unreserved c")
    case True
    with "2.IH"(1) unreserved_no_surrogate [OF True] show ?thesis by simp
  next
    case plain: False
    show ?thesis
    proof (cases "isTrailSurrogate c")
      case True
      with plain show ?thesis by simp
    next
      case notrail: False
      show ?thesis
      proof (cases "isLeadSurrogate c")
        case False
        with plain notrail "2.IH"(3) show ?thesis by simp
      next
        case lead: True
        show ?thesis
        proof (cases cs)
          case Nil
          with plain notrail lead show ?thesis by simp
        next
          case (Cons d ds)
          show ?thesis
          proof (cases "isTrailSurrogate d")
            case True
            with plain notrail lead Cons "2.IH"(2) show ?thesis by simp
          next
            case False
            with plain notrail lead Cons show ?thesis by simp
          qed
        qed
      qed
    qed
  qed
qed

lemma utf16_plain: "c \<in> set (utf16 str) \<Longrightarrow> c < 256"
proof -
  have "of_char x < (256 :: nat)" for x :: char
    by (cases x) simp
  then show "c \<in> set (utf16 str) \<Longrightarrow> c < 256"
    by (auto simp add: utf16_def)
qed

lemma wellFormed_append_plain:
  "\<forall>c \<in> set xs. c < 55296 \<Longrightarrow> wellFormed (xs @ ys) = wellFormed ys"
  by (induction xs) (simp_all add: isTrailSurrogate_def isLeadSurrogate_def)

lemma wellFormed_plain: "\<forall>c \<in> set xs. c < 55296 \<Longrightarrow> wellFormed xs"
  using wellFormed_append_plain [of xs "[]"] by simp

lemma wellFormed_utf16: "wellFormed (utf16 str)"
  using utf16_plain [of _ str] by (intro wellFormed_plain) fastforce

lemma wellFormed_utf16_append: "wellFormed (utf16 str @ ys) = wellFormed ys"
  using utf16_plain [of _ str] by (intro wellFormed_append_plain) fastforce

lemma coverUrlBuilds_iff:
  "coverUrlBuilds v k \<longleftrightarrow> wellFormed (buildImagePrompt v) \<and> wellFormed k"
  by (simp only: coverUrlBuilds_def encodeURIComponent_wellFormed)

lemma coverUrlBuilds_utf16: "coverUrlBuilds (utf16 v) (utf16 k)"
proof -
  have "wellFormed (utf16 v @ utf16 rest)" for rest
    by (simp add: wellFormed_utf16_append wellFormed_utf16)
  then show ?thesis
    by (simp add: coverUrlBuilds_iff buildImagePrompt_def wellFormed_utf16_append
        wellFormed_utf16)
qed

lemma not_coverUrlBuilds_loneSurrogate: "\<not> coverUrlBuilds loneSurrogate k"
proof -
  have "utf16 (''. '' @ rest) = 46 # utf16 ('' '' @ rest)" for rest
    by (simp add: utf16_def)
  then have "\<not> wellFormed (loneSurrogate @ utf16 (''. '' @ rest))" for rest
    by (simp add: loneSurrogate_def isTrailSurrogate_def isLeadSurrogate_def)
  then show ?thesis
    by (simp add: coverUrlBuilds_iff buildImagePrompt_def wellFormed_utf16_append)
qed

subsection \<open>Ground facts about the example inputs\<close>

lemma clientIp_alice: "clientIp alice = ''10.0.0.1''"
  by (simp add: clientIp_def alice_def orElse_def)

lemma clientIp_bob: "clientIp bob = ''10.0.0.2''"
  by (simp add: clientIp_def bob_def orElse_def)

lemma clientIp_vibe_update: "clientIp (req\<lparr>vibe := v\<rparr>) = clientIp req"
  by (simp add: clientIp_def split: option.splits)

lemma envOk_fields:
  "todayUTC envOk = day2" "POLLINATIONS_API_KEY envOk = Some (utf16 ''k'')"
  "randomUUID envOk = ''u1''" "Date_now envOk = 1000"
  "todayUTC envDown = day2" "POLLINATIONS_API_KEY envDown = Some (utf16 ''k'')"
  by (simp_all add: envOk_def envDown_def)

lemma days_differ: "day1 \<noteq> day2"
  by (simp add: day1_def day2_def)

lemma trim_neon_rain: "trim (utf16 ''neon rain'') = utf16 ''neon rain''"
  by (simp add: trim_def trimBy_def isWhiteSpace_def utf16_def)

lemma validVibe_alice: "validVibe alice" "sentVibe alice = utf16 ''neon rain''"
  by (simp_all add: validVibe_def sentVibe_def alice_def trim_neon_rain) (simp add: utf16_def)

lemma hasApiKey_envOk:
  "hasApiKey envOk" "sentKey envOk = utf16 ''k''"
  "hasApiKey envDown" "sentKey envDown = utf16 ''k''"
  by (simp_all add: hasApiKey_def sentKey_def envOk_fields) (simp_all add: utf16_def)

lemma jsonStr_goodContent: "jsonStr goodContent = goodContent"
  by (simp add: jsonStr_def jsonMatch_def goodContent_def utf16_def trim_def trimBy_def
      isWhiteSpace_def)

lemma tracksCheck_goodTracklist: "tracksCheck goodTracklist = None"
  by (simp add: goodTracklist_def)

lemma textApi_envOk: "textApi (JSON_parse envOk) (textRes envOk) = Inr goodTracklist"
proof -
  have content: "goodContent \<noteq> []" by (simp add: goodContent_def)
  have env: "JSON_parse envOk = parseGood" "textRes envOk = TextResponse True 200 (Content goodContent)"
    by (simp_all add: envOk_def)
  have parsed: "parseGood (jsonStr goodContent) = Some goodTracklist"
    by (simp add: jsonStr_goodContent parseGood_def)
  show ?thesis
    by (simp add: textApi_def env content parsed tracksCheck_goodTracklist)
qed

lemma fullySucceeds_envOk: "fullySucceeds envOk"
  using textApi_Inr_iff [of envOk] textApi_envOk by simp

lemma not_fullySucceeds_envDown: "\<not> fullySucceeds envDown"
  by (simp add: fullySucceeds_def envDown_def envOk_def)

lemma heapOf_cells:
  "cells (heapOf recs) a = (if a < length recs then recs ! a else \<lparr>count = 0, date = []\<rparr>)"
  "nextAddr (heapOf recs) = length recs"
  by (simp_all add: heapOf_def)

subsection \<open>Quota is consumed by an answered generation only\<close>

lemma generate_failed_state:
  assumes "\<not> isGenerated (reply (generate env req s h tokens))"
  shows "(store_after (generate env req s h tokens), heap_after (generate env req s h tokens)) =
           snd (userRecord (todayUTC env) (clientIp req) (resetIfNewDay (todayUTC env) s) h)"
    and "tokens_after (generate env req s h tokens) = tokens"
proof -
  obtain rec s2 h2
    where ur: "userRecord (todayUTC env) (clientIp req) (resetIfNewDay (todayUTC env) s) h
      = (rec, s2, h2)"
    by (cases "userRecord (todayUTC env) (clientIp req) (resetIfNewDay (todayUTC env) s) h")
  let ?ctx = "\<lparr>ctx_ip = clientIp req, ctx_rec = rec, ctx_vibe = sentVibe req,
    ctx_apiKey = sentKey env\<rparr>"
  have resumed: "store_after (generateResume env ?ctx s2 h2 tokens) = s2 \<and>
      heap_after (generateResume env ?ctx s2 h2 tokens) = h2 \<and>
      tokens_after (generateResume env ?ctx s2 h2 tokens) = tokens"
    if "\<not> isGenerated (reply (generateResume env ?ctx s2 h2 tokens))"
    using generateResume_failed [OF that] by simp
  from assms resumed
  show "(store_after (generate env req s h tokens), heap_after (generate env req s h tokens)) =
           snd (userRecord (todayUTC env) (clientIp req) (resetIfNewDay (todayUTC env) s) h)"
    and "tokens_after (generate env req s h tokens) = tokens"
    by (auto simp add: generate_unfold ur split: if_splits)
qed

lemma generateBegin_state:
  "snd (generateBegin env req s h) =
     snd (userRecord (todayUTC env) (clientIp req) (resetIfNewDay (todayUTC env) s) h)"
  by (simp add: generateBegin_unfold split: prod.splits)

lemma generateBegin_Awaiting:
  assumes "fst (generateBegin env req s h) = Awaiting ctx"
  shows "ctx_ip ctx = clientIp req" and "ctx_vibe ctx = sentVibe req"
    and "ctx_apiKey ctx = sentKey env"
    and "map_of (users (fst (snd (generateBegin env req s h)))) (clientIp req)
           = Some (ctx_rec ctx)"
proof -
  obtain rec s2 h2
    where ur: "userRecord (todayUTC env) (clientIp req) (resetIfNewDay (todayUTC env) s) h
      = (rec, s2, h2)"
    by (cases "userRecord (todayUTC env) (clientIp req) (resetIfNewDay (todayUTC env) s) h")
  from assms
  have ctx: "ctx = \<lparr>ctx_ip = clientIp req, ctx_rec = rec, ctx_vibe = sentVibe req,
      ctx_apiKey = sentKey env\<rparr>"
    by (auto simp add: generateBegin_unfold ur split: if_splits)
  show "ctx_ip ctx = clientIp req" "ctx_vibe ctx = sentVibe req" "ctx_apiKey ctx = sentKey env"
    by (simp_all add: ctx)
  show "map_of (users (fst (snd (generateBegin env req s h)))) (clientIp req) = Some (ctx_rec ctx)"
    by (simp add: generateBegin_state ur ctx userRecord_store(3) [OF ur])
qed

lemma generateResume_attached:
  assumes gen: "isGenerated (reply (generateResume env ctx s h tokens))"
    and att: "map_of (users s) (ctx_ip ctx) = Some (ctx_rec ctx)"
  shows "storedCount (ctx_ip ctx) (store_after (generateResume env ctx s h tokens))
           (heap_after (generateResume env ctx s h tokens)) =
         storedCount (ctx_ip ctx) s h + 1"
  using att by (simp add: storedCount_def entryOf_def generateResume_generated [OF gen])

text \<open>
  Claim C1, as stated, fails, in two ways. First, the cover URL is built after the
  tracklist check and before the increments, and \<^verbatim>\<open>encodeURIComponent\<close> throws on a
  vibe that is a single lead surrogate: the limits, the input and the key are in
  order, the upstream call is OK, its payload parses and has a non-empty list of
  tracks, and yet the request is answered 500 and no counter is incremented. Second,
  the handler increments the record that it read before the \<^verbatim>\<open>await\<close>: when the day
  changes while the request awaits the text API and another request resets the ledger,
  the generation succeeds and the global counter is incremented, but no record of the
  client is in the ledger afterwards and the client's count is still 0.
\<close>

theorem generation_succeeds_without_charge:
  "validVibe (alice\<lparr>vibe := Some loneSurrogate\<rparr>) \<and> hasApiKey envOk \<and> fullySucceeds envOk \<and>
   globalCount emptyStore = 0 \<and>
   reply (generate envOk (alice\<lparr>vibe := Some loneSurrogate\<rparr>) emptyStore (heapOf []) []) =
     Failed 500 Thrown \<and>
   textCalls (generate envOk (alice\<lparr>vibe := Some loneSurrogate\<rparr>) emptyStore (heapOf []) []) =
     [(utf16 ''k'', loneSurrogate)] \<and>
   globalCount
     (store_after (generate envOk (alice\<lparr>vibe := Some loneSurrogate\<rparr>) emptyStore (heapOf []) []))
     = 0 \<and>
   fst begunOnDay1 = Awaiting aliceCtx \<and>
   reply resumedOnDay2 = Generated goodTracklist ''u1'' \<lparr>user = 1, global = 10\<rparr> \<and>
   globalCount (store_after resumedOnDay2) = 1 \<and>
   entryOf (store_after resumedOnDay2) (heap_after resumedOnDay2) ''10.0.0.1'' = None \<and>
   storedCount ''10.0.0.1'' (store_after resumedOnDay2) (heap_after resumedOnDay2) = 0 \<and>
   clientCount day2 ''10.0.0.1'' (store_after resumedOnDay2) (heap_after resumedOnDay2) = 0"
proof -
  let ?req = "alice\<lparr>vibe := Some loneSurrogate\<rparr>"
  have trimmed: "trim loneSurrogate = loneSurrogate"
    by (simp add: trim_def trimBy_def isWhiteSpace_def loneSurrogate_def)
  have valid: "validVibe ?req" "sentVibe ?req = loneSurrogate"
    by (simp_all add: validVibe_def sentVibe_def trimmed) (simp add: loneSurrogate_def)
  have ip: "clientIp ?req = ''10.0.0.1''"
    by (simp add: clientIp_vibe_update clientIp_alice)
  have empty: "resetIfNewDay day2 emptyStore = emptyStore" "globalCount emptyStore = 0"
    "clientCount day2 ''10.0.0.1'' emptyStore (heapOf []) = 0"
    by (simp_all add: emptyStore_def resetIfNewDay_def clientCount_entry entryOf_def)
  obtain rec s2 h2 where ur: "userRecord day2 ''10.0.0.1'' emptyStore (heapOf []) = (rec, s2, h2)"
    by (cases "userRecord day2 ''10.0.0.1'' emptyStore (heapOf [])")
  have url: "imageUrl 1000 loneSurrogate (utf16 ''k'') = None"
    using imageUrl_Some_iff [of 1000 loneSurrogate "utf16 ''k''"]
      not_coverUrlBuilds_loneSurrogate [of "utf16 ''k''"]
    by (cases "imageUrl 1000 loneSurrogate (utf16 ''k'')") auto
  have run1: "generate envOk ?req emptyStore (heapOf []) [] =
      \<lparr>reply = Failed 500 Thrown, store_after = s2, heap_after = h2, tokens_after = [],
       textCalls = [(utf16 ''k'', loneSurrogate)]\<rparr>"
    using valid(1) hasApiKey_envOk(1)
    by (simp add: generate_unfold ip envOk_fields empty ur valid(2) hasApiKey_envOk(2)
        generateResume_def textApi_envOk url DAILY_GLOBAL_LIMIT_def DAILY_USER_LIMIT_def)
  have g2: "globalCount s2 = 0"
    using userRecord_store(1) [OF ur] by (simp add: empty)
  have env1: "todayUTC envDay1 = day1" "hasApiKey envDay1" "sentKey envDay1 = utf16 ''k''"
    by (simp_all add: envDay1_def hasApiKey_def sentKey_def envOk_fields) (simp add: utf16_def)
  have start: "resetIfNewDay day1 day1Store = day1Store" "globalCount day1Store = 0"
    "clientCount day1 ''10.0.0.1'' day1Store (heapOf []) = 0"
    by (simp_all add: day1Store_def resetIfNewDay_def clientCount_entry entryOf_def)
  have ur1: "userRecord day1 ''10.0.0.1'' day1Store (heapOf []) =
      (0, \<lparr>globalCount = 0, resetDate = day1, users = [(''10.0.0.1'', 0)]\<rparr>,
       heapOf []\<lparr>cells := (cells (heapOf []))(0 := \<lparr>count = 0, date = day1\<rparr>),
         nextAddr := Suc 0\<rparr>)"
    by (simp add: userRecord_def Let_def fresh_def day1Store_def heapOf_cells)
  have begun: "begunOnDay1 =
      (Awaiting aliceCtx, \<lparr>globalCount = 0, resetDate = day1, users = [(''10.0.0.1'', 0)]\<rparr>,
       heapOf []\<lparr>cells := (cells (heapOf []))(0 := \<lparr>count = 0, date = day1\<rparr>),
         nextAddr := Suc 0\<rparr>)"
    using validVibe_alice(1) env1(2)
    by (simp add: begunOnDay1_def generateBegin_unfold clientIp_alice env1 start ur1
        validVibe_alice(2) aliceCtx_def DAILY_GLOBAL_LIMIT_def DAILY_USER_LIMIT_def)
  have bob: "snd afterBob =
      (\<lparr>globalCount = 0, resetDate = day2, users = [(''10.0.0.2'', Suc 0)]\<rparr>,
       heapOf []\<lparr>cells := (cells (heapOf []))(0 := \<lparr>count = 0, date = day1\<rparr>,
           Suc 0 := \<lparr>count = 0, date = day2\<rparr>),
         nextAddr := Suc (Suc 0)\<rparr>)"
    by (simp add: afterBob_def begun status_def Let_def clientIp_bob resetIfNewDay_def
        days_differ userRecord_def fresh_def)
  have url2: "\<exists>u. imageUrl 1000 (utf16 ''neon rain'') (utf16 ''k'') = Some u"
    using imageUrl_Some_iff [of 1000 "utf16 ''neon rain''" "utf16 ''k''"]
    by (simp add: coverUrlBuilds_utf16)
  then obtain u where u: "imageUrl 1000 (utf16 ''neon rain'') (utf16 ''k'') = Some u" ..
  have run2: "reply resumedOnDay2 = Generated goodTracklist ''u1'' \<lparr>user = 1, global = 10\<rparr>"
    "store_after resumedOnDay2 =
       \<lparr>globalCount = 1, resetDate = day2, users = [(''10.0.0.2'', Suc 0)]\<rparr>"
    by (simp_all add: resumedOnDay2_def bob generateResume_def textApi_envOk aliceCtx_def
        envOk_fields u Let_def DAILY_GLOBAL_LIMIT_def DAILY_USER_LIMIT_def)
  show ?thesis
    using valid(1) hasApiKey_envOk(1) fullySucceeds_envOk
    by (simp add: run1 g2 empty begun run2 storedCount_def clientCount_entry entryOf_def)
qed

text \<open>
  Claim C1, amended. A request is answered with the generated tracklist exactly when
  both limit checks pass, the input is valid, the credential is present, the generation
  succeeds upstream (OK response, content that parses as JSON, non-empty list of tracks)
  and the cover URL can be built, which it can exactly when the image prompt and the
  key hold no surrogate outside a pair. When no other request runs while the request
  awaits the text API, the global counter and the client's count grow by exactly one on
  a success and stay as they are on every error path, where the store, the heap and
  the tokens are left as the lazy day reset and the lookup of the caller's record made
  them. The counts are compared with the ledger as the lazy day reset at the head of
  the handler leaves it, and the client's count is the one the handler reads; for a
  store whose records carry the reset date, on a current date, that is the store
  itself and the count stored under the client's key.

  With other requests in between, the first step still leaves the global counter and
  every client's count as the reset leaves them, and it suspends with the record that
  is stored under the client's key. The second step, on whatever store, heap and
  tokens it finds, changes nothing on an error path; on a success it adds one to the
  global counter and one to the count of the record that the first step read, and to
  nothing else; the count stored under the client's key grows by one if that record
  is still the one stored under it.
\<close>

theorem quota_consumed_by_answered_generation:
  "(isGenerated (reply (generate env req s h tokens)) \<longleftrightarrow>
      globalCount (resetIfNewDay (todayUTC env) s) < DAILY_GLOBAL_LIMIT \<and>
      clientCount (todayUTC env) (clientIp req) (resetIfNewDay (todayUTC env) s) h
        < DAILY_USER_LIMIT \<and>
      validVibe req \<and> hasApiKey env \<and> fullySucceeds env \<and>
      coverUrlBuilds (sentVibe req) (sentKey env)) \<and>
   (coverUrlBuilds (sentVibe req) (sentKey env) \<longleftrightarrow>
      wellFormed (buildImagePrompt (sentVibe req)) \<and> wellFormed (sentKey env)) \<and>
   globalCount (store_after (generate env req s h tokens)) =
     globalCount (resetIfNewDay (todayUTC env) s) +
     (if isGenerated (reply (generate env req s h tokens)) then 1 else 0) \<and>
   clientCount (todayUTC env) (clientIp req)
     (store_after (generate env req s h tokens)) (heap_after (generate env req s h tokens)) =
     clientCount (todayUTC env) (clientIp req) (resetIfNewDay (todayUTC env) s) h +
     (if isGenerated (reply (generate env req s h tokens)) then 1 else 0) \<and>
   (\<not> isGenerated (reply (generate env req s h tokens)) \<longrightarrow>
      (store_after (generate env req s h tokens), heap_after (generate env req s h tokens)) =
        snd (userRecord (todayUTC env) (clientIp req) (resetIfNewDay (todayUTC env) s) h) \<and>
      tokens_after (generate env req s h tokens) = tokens \<and>
      (\<forall>ip. clientCount (todayUTC env) ip
              (store_after (generate env req s h tokens))
              (heap_after (generate env req s h tokens)) =
            clientCount (todayUTC env) ip (resetIfNewDay (todayUTC env) s) h)) \<and>
   (wellDated s h \<and> resetDate s = todayUTC env \<longrightarrow>
      globalCount (store_after (generate env req s h tokens)) =
        globalCount s + (if isGenerated (reply (generate env req s h tokens)) then 1 else 0) \<and>
      storedCount (clientIp req)
        (store_after (generate env req s h tokens)) (heap_after (generate env req s h tokens)) =
        storedCount (clientIp req) s h +
        (if isGenerated (reply (generate env req s h tokens)) then 1 else 0)) \<and>
   globalCount (fst (snd (generateBegin env req s h))) =
     globalCount (resetIfNewDay (todayUTC env) s) \<and>
   (\<forall>ip. clientCount (todayUTC env) ip
           (fst (snd (generateBegin env req s h))) (snd (snd (generateBegin env req s h))) =
         clientCount (todayUTC env) ip (resetIfNewDay (todayUTC env) s) h) \<and>
   (\<forall>c. fst (generateBegin env req s h) = Awaiting c \<longrightarrow>
      ctx_ip c = clientIp req \<and> ctx_vibe c = sentVibe req \<and> ctx_apiKey c = sentKey env \<and>
      map_of (users (fst (snd (generateBegin env req s h)))) (clientIp req) = Some (ctx_rec c)) \<and>
   (isGenerated (reply (generateResume env ctx sm hm tm)) \<longleftrightarrow>
      fullySucceeds env \<and> coverUrlBuilds (ctx_vibe ctx) (ctx_apiKey ctx)) \<and>
   (\<not> isGenerated (reply (generateResume env ctx sm hm tm)) \<longrightarrow>
      store_after (generateResume env ctx sm hm tm) = sm \<and>
      heap_after (generateResume env ctx sm hm tm) = hm \<and>
      tokens_after (generateResume env ctx sm hm tm) = tm) \<and>
   (isGenerated (reply (generateResume env ctx sm hm tm)) \<longrightarrow>
      store_after (generateResume env ctx sm hm tm) = sm\<lparr>globalCount := globalCount sm + 1\<rparr> \<and>
      cells (heap_after (generateResume env ctx sm hm tm)) (ctx_rec ctx) =
        (cells hm (ctx_rec ctx))\<lparr>count := count (cells hm (ctx_rec ctx)) + 1\<rparr> \<and>
      (\<forall>a. a \<noteq> ctx_rec ctx \<longrightarrow>
         cells (heap_after (generateResume env ctx sm hm tm)) a = cells hm a) \<and>
      (map_of (users sm) (ctx_ip ctx) = Some (ctx_rec ctx) \<longrightarrow>
         storedCount (ctx_ip ctx) (store_after (generateResume env ctx sm hm tm))
           (heap_after (generateResume env ctx sm hm tm)) =
         storedCount (ctx_ip ctx) sm hm + 1))"
proof -
  let ?today = "todayUTC env" and ?ip = "clientIp req"
  let ?s1 = "resetIfNewDay (todayUTC env) s"
  let ?g = "generate env req s h tokens"
  let ?d = "if isGenerated (reply ?g) then 1 else 0 :: int"
  let ?r = "generateResume env ctx sm hm tm"
  obtain rec s2 h2 where ur: "userRecord ?today ?ip ?s1 h = (rec, s2, h2)"
    by (cases "userRecord ?today ?ip ?s1 h")
  have answered: "isGenerated (reply ?g) \<longleftrightarrow>
      globalCount ?s1 < DAILY_GLOBAL_LIMIT \<and> clientCount ?today ?ip ?s1 h < DAILY_USER_LIMIT \<and>
      validVibe req \<and> hasApiKey env \<and> fullySucceeds env \<and>
      coverUrlBuilds (sentVibe req) (sentKey env)"
    by (rule isGenerated_generate)
  have encodes: "coverUrlBuilds (sentVibe req) (sentKey env) \<longleftrightarrow>
      wellFormed (buildImagePrompt (sentVibe req)) \<and> wellFormed (sentKey env)"
    by (rule coverUrlBuilds_iff)
  have g: "globalCount (store_after ?g) = globalCount ?s1 + ?d"
    by (rule globalCount_generate)
  have c: "clientCount ?today ?ip (store_after ?g) (heap_after ?g) =
      clientCount ?today ?ip ?s1 h + ?d"
    by (rule clientCount_generate)
  have failed: "(store_after ?g, heap_after ?g) = snd (userRecord ?today ?ip ?s1 h) \<and>
      tokens_after ?g = tokens \<and>
      (\<forall>ip. clientCount ?today ip (store_after ?g) (heap_after ?g) =
        clientCount ?today ip ?s1 h)"
    if "\<not> isGenerated (reply ?g)"
  proof -
    from generate_failed_state [OF that]
    have state: "store_after ?g = s2" "heap_after ?g = h2" "tokens_after ?g = tokens"
      by (simp_all add: ur)
    then show ?thesis
      by (simp add: ur userRecord_clientCount [OF ur])
  qed
  have stored: "globalCount (store_after ?g) = globalCount s + ?d \<and>
      storedCount ?ip (store_after ?g) (heap_after ?g) = storedCount ?ip s h + ?d"
    if wd: "wellDated s h" and cur: "resetDate s = ?today"
  proof -
    have same: "?s1 = s"
      using cur by (rule resetIfNewDay_same)
    have before: "clientCount ?today ?ip s h = storedCount ?ip s h"
      using wellDated_clientCount [OF wd, of ?ip] by (simp add: cur)
    have "wellDated (store_after ?g) (heap_after ?g)"
      using wd by (rule wellDated_generate)
    from wellDated_clientCount [OF this, of ?ip]
    have after: "clientCount ?today ?ip (store_after ?g) (heap_after ?g) =
        storedCount ?ip (store_after ?g) (heap_after ?g)"
      by (simp add: resetDate_generate)
    from g c show ?thesis
      by (simp add: same before after)
  qed
  have begin_state: "fst (snd (generateBegin env req s h)) = s2"
    "snd (snd (generateBegin env req s h)) = h2"
    by (simp_all add: generateBegin_state ur)
  have begin_global: "globalCount (fst (snd (generateBegin env req s h))) = globalCount ?s1"
    by (simp add: begin_state userRecord_store(1) [OF ur])
  have begin_counts: "\<forall>ip. clientCount ?today ip
      (fst (snd (generateBegin env req s h))) (snd (snd (generateBegin env req s h))) =
      clientCount ?today ip ?s1 h"
    by (simp add: begin_state userRecord_clientCount [OF ur])
  have suspended: "ctx_ip c = ?ip \<and> ctx_vibe c = sentVibe req \<and> ctx_apiKey c = sentKey env \<and>
      map_of (users (fst (snd (generateBegin env req s h)))) ?ip = Some (ctx_rec c)"
    if "fst (generateBegin env req s h) = Awaiting c" for c
    using generateBegin_Awaiting [OF that] by simp
  have resumed_reply: "isGenerated (reply ?r) \<longleftrightarrow>
      fullySucceeds env \<and> coverUrlBuilds (ctx_vibe ctx) (ctx_apiKey ctx)"
    by (rule generateResume_reply)
  have resumed_failed: "store_after ?r = sm \<and> heap_after ?r = hm \<and> tokens_after ?r = tm"
    if "\<not> isGenerated (reply ?r)"
    using generateResume_failed [OF that] by simp
  have resumed_generated: "store_after ?r = sm\<lparr>globalCount := globalCount sm + 1\<rparr> \<and>
      cells (heap_after ?r) (ctx_rec ctx) =
        (cells hm (ctx_rec ctx))\<lparr>count := count (cells hm (ctx_rec ctx)) + 1\<rparr> \<and>
      (\<forall>a. a \<noteq> ctx_rec ctx \<longrightarrow> cells (heap_after ?r) a = cells hm a) \<and>
      (map_of (users sm) (ctx_ip ctx) = Some (ctx_rec ctx) \<longrightarrow>
         storedCount (ctx_ip ctx) (store_after ?r) (heap_after ?r) =
         storedCount (ctx_ip ctx) sm hm + 1)"
    if gen: "isGenerated (reply ?r)"
    using generateResume_attached [OF gen]
    by (simp add: generateResume_generated [OF gen])
  from answered encodes g c failed stored begin_global begin_counts suspended
    resumed_reply resumed_failed resumed_generated
  show ?thesis
    by (intro conjI impI allI) blast+
qed

lemma busy_facts:
  "wellDated busyStore busyHeap" "resetDate busyStore = day2" "globalCount busyStore = 3"
  "resetIfNewDay day2 busyStore = busyStore"
  "map_of (users busyStore) ''10.0.0.1'' = Some 0"
  "cells busyHeap 0 = \<lparr>count = 1, date = day2\<rparr>"
  "cells busyHeap (Suc 0) = \<lparr>count = 2, date = day2\<rparr>"
  "storedCount ''10.0.0.1'' busyStore busyHeap = 1"
  "clientCount day2 ''10.0.0.1'' busyStore busyHeap = 1"
  "userRecord day2 ''10.0.0.1'' busyStore busyHeap = (0, busyStore, busyHeap)"
  "entryOf busyStore busyHeap ''10.0.0.1'' = Some \<lparr>count = 1, date = day2\<rparr>"
  "entryOf busyStore busyHeap ''10.0.0.2'' = Some \<lparr>count = 2, date = day2\<rparr>"
  by (simp_all add: wellDated_def busyStore_def busyHeap_def heapOf_cells resetIfNewDay_def
      storedCount_def clientCount_entry entryOf_def userRecord_def Let_def)

theorem quota_consumed_by_answered_generation_witness:
  "wellDated busyStore busyHeap \<and> resetDate busyStore = todayUTC envOk \<and>
   globalCount busyStore = 3 \<and> storedCount ''10.0.0.1'' busyStore busyHeap = 1 \<and>
   isGenerated (reply (generate envOk alice busyStore busyHeap [])) \<and>
   globalCount (store_after (generate envOk alice busyStore busyHeap [])) = 4 \<and>
   storedCount ''10.0.0.1'' (store_after (generate envOk alice busyStore busyHeap []))
     (heap_after (generate envOk alice busyStore busyHeap [])) = 2 \<and>
   \<not> isGenerated (reply (generate envDown alice busyStore busyHeap [])) \<and>
   globalCount (store_after (generate envDown alice busyStore busyHeap [])) = 3 \<and>
   storedCount ''10.0.0.1'' (store_after (generate envDown alice busyStore busyHeap []))
     (heap_after (generate envDown alice busyStore busyHeap [])) = 1 \<and>
   store_after (generate envDown alice busyStore busyHeap []) = busyStore \<and>
   heap_after (generate envDown alice busyStore busyHeap []) = busyHeap \<and>
   tokens_after (generate envDown alice busyStore busyHeap []) = [] \<and>
   fst (generateBegin envOk alice busyStore busyHeap) = Awaiting aliceCtx \<and>
   map_of (users busyStore) (ctx_ip aliceCtx) = Some (ctx_rec aliceCtx) \<and>
   isGenerated (reply (generateResume envOk aliceCtx busyStore busyHeap [])) \<and>
   storedCount ''10.0.0.1'' (store_after (generateResume envOk aliceCtx busyStore busyHeap []))
     (heap_after (generateResume envOk aliceCtx busyStore busyHeap [])) = 2 \<and>
   \<not> isGenerated (reply (generateResume envDown aliceCtx busyStore busyHeap [])) \<and>
   store_after (generateResume envDown aliceCtx busyStore busyHeap []) = busyStore"
proof -
  note ok = quota_consumed_by_answered_generation
    [where env = envOk and req = alice and s = busyStore and h = busyHeap and tokens = "[]"
       and ctx = aliceCtx and sm = busyStore and hm = busyHeap and tm = "[]"]
  note down = quota_consumed_by_answered_generation
    [where env = envDown and req = alice and s = busyStore and h = busyHeap and tokens = "[]"
       and ctx = aliceCtx and sm = busyStore and hm = busyHeap and tm = "[]"]
  have ctx: "ctx_ip aliceCtx = ''10.0.0.1''" "ctx_rec aliceCtx = 0"
    "ctx_vibe aliceCtx = utf16 ''neon rain''" "ctx_apiKey aliceCtx = utf16 ''k''"
    by (simp_all add: aliceCtx_def)
  have limits: "globalCount (resetIfNewDay (todayUTC envOk) busyStore) < DAILY_GLOBAL_LIMIT"
    "clientCount (todayUTC envOk) (clientIp alice) (resetIfNewDay (todayUTC envOk) busyStore)
       busyHeap < DAILY_USER_LIMIT"
    by (simp_all add: envOk_fields busy_facts clientIp_alice DAILY_GLOBAL_LIMIT_def
        DAILY_USER_LIMIT_def)
  have builds: "coverUrlBuilds (sentVibe alice) (sentKey envOk)"
    by (simp add: validVibe_alice(2) hasApiKey_envOk(2) coverUrlBuilds_utf16)
  have builds_ctx: "coverUrlBuilds (ctx_vibe aliceCtx) (ctx_apiKey aliceCtx)"
    by (simp add: ctx coverUrlBuilds_utf16)
  have hyp: "wellDated busyStore busyHeap \<and> resetDate busyStore = todayUTC envOk"
    "wellDated busyStore busyHeap \<and> resetDate busyStore = todayUTC envDown"
    by (simp_all add: busy_facts envOk_fields)
  have att: "map_of (users busyStore) (ctx_ip aliceCtx) = Some (ctx_rec aliceCtx)"
    by (simp add: ctx busy_facts)
  from ok limits validVibe_alice(1) hasApiKey_envOk(1) fullySucceeds_envOk builds
  have gen: "isGenerated (reply (generate envOk alice busyStore busyHeap []))"
    by blast
  from ok hyp(1) gen
  have charged: "globalCount (store_after (generate envOk alice busyStore busyHeap [])) =
      globalCount busyStore + 1 \<and>
    storedCount (clientIp alice) (store_after (generate envOk alice busyStore busyHeap []))
      (heap_after (generate envOk alice busyStore busyHeap [])) =
      storedCount (clientIp alice) busyStore busyHeap + 1"
    by simp
  from down not_fullySucceeds_envDown
  have nogen: "\<not> isGenerated (reply (generate envDown alice busyStore busyHeap []))"
    by blast
  from down hyp(2) nogen
  have kept: "globalCount (store_after (generate envDown alice busyStore busyHeap [])) =
      globalCount busyStore \<and>
    storedCount (clientIp alice) (store_after (generate envDown alice busyStore busyHeap []))
      (heap_after (generate envDown alice busyStore busyHeap [])) =
      storedCount (clientIp alice) busyStore busyHeap"
    by simp
  from down nogen
  have frame: "(store_after (generate envDown alice busyStore busyHeap []),
      heap_after (generate envDown alice busyStore busyHeap [])) =
      snd (userRecord (todayUTC envDown) (clientIp alice)
        (resetIfNewDay (todayUTC envDown) busyStore) busyHeap) \<and>
    tokens_after (generate envDown alice busyStore busyHeap []) = []"
    by blast
  have begun: "fst (generateBegin envOk alice busyStore busyHeap) = Awaiting aliceCtx"
    using limits validVibe_alice(1) hasApiKey_envOk(1)
    by (simp add: generateBegin_unfold envOk_fields clientIp_alice busy_facts aliceCtx_def
        validVibe_alice(2) hasApiKey_envOk(2))
  from ok fullySucceeds_envOk builds_ctx
  have rgen: "isGenerated (reply (generateResume envOk aliceCtx busyStore busyHeap []))"
    by blast
  from ok rgen att
  have rcharged: "storedCount (ctx_ip aliceCtx)
      (store_after (generateResume envOk aliceCtx busyStore busyHeap []))
      (heap_after (generateResume envOk aliceCtx busyStore busyHeap [])) =
      storedCount (ctx_ip aliceCtx) busyStore busyHeap + 1"
    by blast
  from down not_fullySucceeds_envDown
  have rnogen: "\<not> isGenerated (reply (generateResume envDown aliceCtx busyStore busyHeap []))"
    by blast
  from down rnogen
  have rkept: "store_after (generateResume envDown aliceCtx busyStore busyHeap []) = busyStore"
    by blast
  from gen charged nogen kept frame begun att rgen rcharged rnogen rkept show ?thesis
    by (simp add: busy_facts envOk_fields clientIp_alice ctx)
qed

subsection \<open>Redeeming a cover token\<close>

lemma cover_absent:
  "map_of tokens token = None \<Longrightarrow>
   cover now imgRes token tokens =
     \<lparr>cover_reply = CoverFailed 404 NotFound, cover_tokens = tokens, fetched = []\<rparr>"
  by (simp add: cover_def)

lemma cover_expired:
  "map_of tokens token = Some entry \<Longrightarrow> expiresAt entry < now \<Longrightarrow>
   cover now imgRes token tokens =
     \<lparr>cover_reply = CoverFailed 410 Expired, cover_tokens = AList.delete token tokens,
      fetched = []\<rparr>"
  by (simp add: cover_def)

lemma cover_live:
  "map_of tokens token = Some entry \<Longrightarrow> now \<le> expiresAt entry \<Longrightarrow>
   fetched (cover now imgRes token tokens) = [url entry] \<and>
   (delivered imgRes \<longrightarrow>
      (\<exists>ctype cache buffer. cover_reply (cover now imgRes token tokens) = Image ctype cache buffer) \<and>
      cover_tokens (cover now imgRes token tokens) = AList.delete token tokens) \<and>
   (\<not> delivered imgRes \<longrightarrow>
      cover_reply (cover now imgRes token tokens) = CoverFailed 502 ProxyError \<and>
      cover_tokens (cover now imgRes token tokens) = tokens)"
  by (auto simp add: cover_def delivered_def split: image_fetch.splits bool.splits option.splits)

lemma map_of_vault1: "map_of vault1 ''u1'' = Some \<lparr>url = ''https://img/1'', expiresAt = 1000\<rparr>"
  by (simp add: vault1_def)






text \<open>
  Claim C3, as stated, fails at the instant \<open>now = expiresAt\<close>: the handler tests
  \<^verbatim>\<open>Date.now() > entry.expiresAt\<close>, so the token is still redeemed there (the stored
  locator is fetched and the image is sent) and is not reported expired.
\<close>

theorem cover_redeems_at_expiry_instant:
  "map_of vault1 ''u1'' = Some \<lparr>url = ''https://img/1'', expiresAt = 1000\<rparr> \<and>
   cover_reply (cover 1000 okImage ''u1'' vault1) =
     Image ''image/png'' ''public, max-age=86400'' [137, 80, 78, 71] \<and>
   fetched (cover 1000 okImage ''u1'' vault1) = [''https://img/1'']"
  by (simp add: cover_def vault1_def okImage_def orElse_def)

text \<open>
  Claim C3, amended. For every token and instant: when the token is absent from the
  vault the handler answers 404 not found, fetches nothing and leaves the vault as it
  was; when it is present and \<open>now > expiresAt\<close> the handler deletes the entry, fetches
  nothing and answers 410 expired; otherwise (present and \<open>now \<le> expiresAt\<close>, the
  instant \<open>now = expiresAt\<close> included) it fetches the stored locator and answers
  neither not found nor expired.
\<close>

theorem cover_expires_strictly_after_expiresAt:
  "(map_of tokens token = None \<longrightarrow>
      cover now imgRes token tokens =
        \<lparr>cover_reply = CoverFailed 404 NotFound, cover_tokens = tokens, fetched = []\<rparr>) \<and>
   (\<forall>entry. map_of tokens token = Some entry \<and> expiresAt entry < now \<longrightarrow>
      cover now imgRes token tokens =
        \<lparr>cover_reply = CoverFailed 410 Expired, cover_tokens = AList.delete token tokens,
         fetched = []\<rparr> \<and>
      map_of (cover_tokens (cover now imgRes token tokens)) token = None) \<and>
   (\<forall>entry. map_of tokens token = Some entry \<and> now \<le> expiresAt entry \<longrightarrow>
      fetched (cover now imgRes token tokens) = [url entry] \<and>
      (\<forall>n. cover_reply (cover now imgRes token tokens) \<noteq> CoverFailed n NotFound) \<and>
      (\<forall>n. cover_reply (cover now imgRes token tokens) \<noteq> CoverFailed n Expired))"
proof -
  have live: "fetched (cover now imgRes token tokens) = [url entry] \<and>
      (\<forall>n. cover_reply (cover now imgRes token tokens) \<noteq> CoverFailed n NotFound) \<and>
      (\<forall>n. cover_reply (cover now imgRes token tokens) \<noteq> CoverFailed n Expired)"
    if "map_of tokens token = Some entry" "now \<le> expiresAt entry" for entry
    using cover_live [OF that, of imgRes] by (cases "delivered imgRes") auto
  show ?thesis
    using live by (auto simp add: cover_absent cover_expired delete_conv')
qed

theorem cover_expires_strictly_after_expiresAt_witness:
  "map_of vault1 ''u2'' = None \<and>
   cover 1000 okImage ''u2'' vault1 =
     \<lparr>cover_reply = CoverFailed 404 NotFound, cover_tokens = vault1, fetched = []\<rparr> \<and>
   map_of vault1 ''u1'' = Some \<lparr>url = ''https://img/1'', expiresAt = 1000\<rparr> \<and>
   cover 1001 okImage ''u1'' vault1 =
     \<lparr>cover_reply = CoverFailed 410 Expired, cover_tokens = [], fetched = []\<rparr> \<and>
   fetched (cover 1000 okImage ''u1'' vault1) = [''https://img/1''] \<and>
   fetched (cover 999 okImage ''u1'' vault1) = [''https://img/1'']"
proof -
  have absent: "map_of vault1 ''u2'' = None"
    by (simp add: vault1_def)
  have gone: "AList.delete ''u1'' vault1 = []"
    by (simp add: vault1_def)
  show ?thesis
    using cover_expires_strictly_after_expiresAt [of vault1 "''u2''" 1000 okImage]
      cover_expires_strictly_after_expiresAt [of vault1 "''u1''" 1001 okImage]
      cover_expires_strictly_after_expiresAt [of vault1 "''u1''" 1000 okImage]
      cover_expires_strictly_after_expiresAt [of vault1 "''u1''" 999 okImage]
    by (simp add: absent gone map_of_vault1)
qed

subsection \<open>The periodic cleanup\<close>

lemma sweepLoop_filter:
  "sweepLoop now xs tokens =
     filter (\<lambda>p. fst p \<notin> fst ` {q \<in> set xs. expiresAt (snd q) < now}) tokens"
proof (induction xs arbitrary: tokens)
  case Nil
  show ?case by simp
next
  case (Cons x xs)
  obtain tok entry where x: "x = (tok, entry)" by (cases x)
  show ?case
  proof (cases "expiresAt entry < now")
    case True
    then have "{q \<in> set (x # xs). expiresAt (snd q) < now} =
        insert x {q \<in> set xs. expiresAt (snd q) < now}"
      by (auto simp add: x)
    then have keys: "fst ` {q \<in> set (x # xs). expiresAt (snd q) < now} =
        insert tok (fst ` {q \<in> set xs. expiresAt (snd q) < now})"
      by (simp add: x)
    from True have "sweepLoop now (x # xs) tokens = sweepLoop now xs (AList.delete tok tokens)"
      by (simp add: x)
    also have "\<dots> = filter (\<lambda>p. fst p \<notin> fst ` {q \<in> set xs. expiresAt (snd q) < now})
        (filter (\<lambda>p. tok \<noteq> fst p) tokens)"
      by (simp add: Cons.IH AList.delete_eq case_prod_beta)
    also have "\<dots> = filter (\<lambda>p. fst p \<notin> fst ` {q \<in> set (x # xs). expiresAt (snd q) < now}) tokens"
      unfolding keys by (auto intro!: filter_cong)
    finally show ?thesis .
  next
    case False
    then have "{q \<in> set (x # xs). expiresAt (snd q) < now} = {q \<in> set xs. expiresAt (snd q) < now}"
      by (auto simp add: x)
    with False show ?thesis
      by (simp add: x Cons.IH)
  qed
qed

lemma sweep_filter:
  assumes "distinct (map fst tokens)"
  shows "sweep now tokens = filter (\<lambda>p. \<not> expiresAt (snd p) < now) tokens"
proof -
  have "fst p \<notin> fst ` {q \<in> set tokens. expiresAt (snd q) < now} \<longleftrightarrow> \<not> expiresAt (snd p) < now"
    if "p \<in> set tokens" for p
  proof
    assume "fst p \<notin> fst ` {q \<in> set tokens. expiresAt (snd q) < now}"
    with that show "\<not> expiresAt (snd p) < now" by auto
  next
    assume keep: "\<not> expiresAt (snd p) < now"
    show "fst p \<notin> fst ` {q \<in> set tokens. expiresAt (snd q) < now}"
    proof
      assume "fst p \<in> fst ` {q \<in> set tokens. expiresAt (snd q) < now}"
      then obtain q where q: "q \<in> set tokens" "expiresAt (snd q) < now" "fst q = fst p"
        by auto
      from assms that q(1) q(3) have "q = p"
        by (metis eq_key_imp_eq_value prod.collapse)
      with q(2) keep show False by simp
    qed
  qed
  then show ?thesis
    unfolding sweep_def sweepLoop_filter by (intro filter_cong) auto
qed

lemma map_of_filter_distinct:
  assumes "distinct (map fst xs)"
  shows "map_of (filter P xs) k =
    (case map_of xs k of None \<Rightarrow> None | Some v \<Rightarrow> if P (k, v) then Some v else None)"
  using assms
proof (induction xs)
  case Nil
  show ?case by simp
next
  case (Cons x xs)
  obtain a b where x: "x = (a, b)" by (cases x)
  from Cons.prems have notin: "a \<notin> fst ` set xs" and dist: "distinct (map fst xs)"
    by (auto simp add: x)
  from notin have none: "map_of xs a = None" "map_of (filter P xs) a = None"
    by (auto simp add: map_of_eq_None_iff)
  show ?case
    using Cons.IH [OF dist] none by (auto simp add: x)
qed

text \<open>The handlers and the cleanup keep the keys of the vault distinct, as a \<^verbatim>\<open>Map\<close> does.\<close>

lemma distinct_generateResume:
  "distinct (map fst tokens) \<Longrightarrow>
   distinct (map fst (tokens_after (generateResume env ctx s h tokens)))"
  by (simp add: generateResume_def Let_def distinct_update split: sum.splits option.splits)

lemma distinct_generate:
  "distinct (map fst tokens) \<Longrightarrow>
   distinct (map fst (tokens_after (generate env req s h tokens)))"
  by (simp add: generate_def distinct_generateResume split: prod.splits begun.splits)

lemma distinct_cover:
  "distinct (map fst tokens) \<Longrightarrow>
   distinct (map fst (cover_tokens (cover now imgRes token tokens)))"
  by (simp add: cover_def distinct_delete
      split: option.splits image_fetch.splits bool.splits)

lemma distinct_sweep:
  "distinct (map fst tokens) \<Longrightarrow> distinct (map fst (sweep now tokens))"
  by (simp add: sweep_filter distinct_map_filter)

text \<open>
  Claim C4, as stated, fails for an entry whose expiry equals the current instant:
  the loop tests \<^verbatim>\<open>now > entry.expiresAt\<close>, so one run of the cleanup at \<open>now = 1000\<close>
  keeps the entry that expires at \<open>1000\<close>.
\<close>

theorem sweep_keeps_entry_at_expiry_instant:
  "sweep 1000 vault1 = vault1 \<and>
   map_of (sweep 1000 vault1) ''u1'' = Some \<lparr>url = ''https://img/1'', expiresAt = 1000\<rparr>"
  by (simp add: sweep_def vault1_def)

text \<open>
  Claim C4, amended. For every vault (a map: no key twice) and instant, one run of the
  cleanup deletes exactly the entries with \<open>expiresAt < now\<close> and leaves every entry with
  \<open>expiresAt \<ge> now\<close> in the vault, in its place and unchanged; an entry whose expiry
  equals the current instant is kept.
\<close>

theorem sweep_deletes_strictly_expired:
  assumes "distinct (map fst tokens)"
  shows "sweep now tokens = filter (\<lambda>p. \<not> expiresAt (snd p) < now) tokens \<and>
         (\<forall>tok. map_of (sweep now tokens) tok =
            (case map_of tokens tok of
               None \<Rightarrow> None
             | Some entry \<Rightarrow> if expiresAt entry < now then None else Some entry))"
  using sweep_filter [OF assms, of now] map_of_filter_distinct [OF assms]
  by (simp split: option.splits)

theorem sweep_deletes_strictly_expired_witness:
  "distinct (map fst vault3) \<and>
   sweep 1000 vault3 =
     [(''b'', \<lparr>url = ''https://img/b'', expiresAt = 1000\<rparr>),
      (''c'', \<lparr>url = ''https://img/c'', expiresAt = 1100\<rparr>)] \<and>
   map_of (sweep 1000 vault3) ''a'' = None"
proof -
  have d: "distinct (map fst vault3)"
    by (simp add: vault3_def)
  show ?thesis
    using d sweep_deletes_strictly_expired [OF d, of 1000]
    by (simp add: vault3_def)
qed

subsection \<open>The lazy day reset\<close>



subsection \<open>The limit checks\<close>

lemma limit_reply_iff:
  "(reply (generate env req s h tokens) = Failed 429 GlobalLimit \<longleftrightarrow>
      DAILY_GLOBAL_LIMIT \<le> globalCount (resetIfNewDay (todayUTC env) s)) \<and>
   (reply (generate env req s h tokens) = Failed 429 UserLimit \<longleftrightarrow>
      globalCount (resetIfNewDay (todayUTC env) s) < DAILY_GLOBAL_LIMIT \<and>
      DAILY_USER_LIMIT \<le>
        clientCount (todayUTC env) (clientIp req) (resetIfNewDay (todayUTC env) s) h) \<and>
   ((\<exists>f. reply (generate env req s h tokens) = Failed 429 f) \<longleftrightarrow>
      DAILY_GLOBAL_LIMIT \<le> globalCount (resetIfNewDay (todayUTC env) s) \<or>
      DAILY_USER_LIMIT \<le>
        clientCount (todayUTC env) (clientIp req) (resetIfNewDay (todayUTC env) s) h)"
  by (auto simp add: generate_unfold generateResume_status split: prod.splits)

lemma early_reply_first_step:
  assumes "n = 429 \<or> n = 400"
  shows "reply (generate env req s h tokens) = Failed n f \<longleftrightarrow>
         fst (generateBegin env req s h) = Replied (Failed n f)"
  using assms
  by (auto simp add: generate_unfold generateBegin_unfold generateResume_status
      split: prod.splits)

lemma early_reply_frame:
  assumes "reply (generate env req s h tokens) = Failed n f" and "n = 429 \<or> n = 400"
  shows "(store_after (generate env req s h tokens), heap_after (generate env req s h tokens)) =
           snd (userRecord (todayUTC env) (clientIp req) (resetIfNewDay (todayUTC env) s) h)"
    and "tokens_after (generate env req s h tokens) = tokens"
    and "textCalls (generate env req s h tokens) = []"
  using assms
  by (auto simp add: generate_unfold generateResume_status split: prod.splits if_splits)

text \<open>
  What the lookup of the caller's record leaves behind: the counter and the date of
  the store, every other client's entry, and the caller's own count.
\<close>

lemma lookup_frame:
  assumes "(s', h') = snd (userRecord today ip s1 h)"
  shows "globalCount s' = globalCount s1 \<and> resetDate s' = resetDate s1 \<and>
         (\<forall>ip'. clientCount today ip' s' h' = clientCount today ip' s1 h) \<and>
         (\<forall>ip'. ip' \<noteq> ip \<longrightarrow> entryOf s' h' ip' = entryOf s1 h ip') \<and>
         entryOf s' h' ip = Some \<lparr>count = clientCount today ip s1 h, date = today\<rparr> \<and>
         (\<forall>rec. entryOf s1 h ip = Some rec \<and> date rec = today \<longrightarrow> s' = s1 \<and> h' = h)"
proof -
  obtain rec where ur: "userRecord today ip s1 h = (rec, s', h')"
    using assms by (cases "userRecord today ip s1 h") simp
  have "s' = s1 \<and> h' = h" if "entryOf s1 h ip = Some r" "date r = today" for r
  proof -
    from that obtain a where "map_of (users s1) ip = Some a" "date (cells h a) = today"
      by (auto simp add: entryOf_def)
    from userRecord_kept [OF this] ur show ?thesis by simp
  qed
  then show ?thesis
    using userRecord_store(1,2) [OF ur] userRecord_clientCount [OF ur]
      userRecord_others [OF ur] userRecord_entry [OF ur]
    by blast
qed

text \<open>
  Claim C6. The limits are 11 and 2. The generate handler answers 429 with type
  \<open>global_limit\<close> exactly when the global count has reached 11, whatever the client's
  own count; otherwise it answers 429 with type \<open>user_limit\<close> exactly when the client's
  count has reached 2; no other request is answered 429, and the answer is given in the
  first step of the handler. A denied request mutates no counter: it leaves the store
  and the heap as the lazy day reset and the lookup of the caller's record made them,
  that is, with the global counter, the date, every client's count and every other
  client's entry as the reset left them (and the whole store, when the caller has a
  record of today); it issues no token and makes no upstream call. The counts are
  those of the ledger after the lazy day reset.
\<close>

theorem limit_check_global_then_user:
  "DAILY_GLOBAL_LIMIT = 11 \<and> DAILY_USER_LIMIT = 2 \<and>
   (reply (generate env req s h tokens) = Failed 429 GlobalLimit \<longleftrightarrow>
      DAILY_GLOBAL_LIMIT \<le> globalCount (resetIfNewDay (todayUTC env) s)) \<and>
   (reply (generate env req s h tokens) = Failed 429 UserLimit \<longleftrightarrow>
      globalCount (resetIfNewDay (todayUTC env) s) < DAILY_GLOBAL_LIMIT \<and>
      DAILY_USER_LIMIT \<le>
        clientCount (todayUTC env) (clientIp req) (resetIfNewDay (todayUTC env) s) h) \<and>
   ((\<exists>f. reply (generate env req s h tokens) = Failed 429 f) \<longleftrightarrow>
      DAILY_GLOBAL_LIMIT \<le> globalCount (resetIfNewDay (todayUTC env) s) \<or>
      DAILY_USER_LIMIT \<le>
        clientCount (todayUTC env) (clientIp req) (resetIfNewDay (todayUTC env) s) h) \<and>
   (\<forall>f. reply (generate env req s h tokens) = Failed 429 f \<longleftrightarrow>
      fst (generateBegin env req s h) = Replied (Failed 429 f)) \<and>
   ((\<exists>f. reply (generate env req s h tokens) = Failed 429 f) \<longrightarrow>
      (store_after (generate env req s h tokens), heap_after (generate env req s h tokens)) =
        snd (userRecord (todayUTC env) (clientIp req) (resetIfNewDay (todayUTC env) s) h) \<and>
      globalCount (store_after (generate env req s h tokens)) =
        globalCount (resetIfNewDay (todayUTC env) s) \<and>
      resetDate (store_after (generate env req s h tokens)) = todayUTC env \<and>
      (\<forall>ip. clientCount (todayUTC env) ip
              (store_after (generate env req s h tokens))
              (heap_after (generate env req s h tokens)) =
            clientCount (todayUTC env) ip (resetIfNewDay (todayUTC env) s) h) \<and>
      (\<forall>ip. ip \<noteq> clientIp req \<longrightarrow>
            entryOf (store_after (generate env req s h tokens))
              (heap_after (generate env req s h tokens)) ip =
            entryOf (resetIfNewDay (todayUTC env) s) h ip) \<and>
      entryOf (store_after (generate env req s h tokens))
          (heap_after (generate env req s h tokens)) (clientIp req) =
        Some \<lparr>count = clientCount (todayUTC env) (clientIp req)
                 (resetIfNewDay (todayUTC env) s) h,
              date = todayUTC env\<rparr> \<and>
      (\<forall>rec. entryOf (resetIfNewDay (todayUTC env) s) h (clientIp req) = Some rec \<and>
             date rec = todayUTC env \<longrightarrow>
             store_after (generate env req s h tokens) = resetIfNewDay (todayUTC env) s \<and>
             heap_after (generate env req s h tokens) = h) \<and>
      tokens_after (generate env req s h tokens) = tokens \<and>
      textCalls (generate env req s h tokens) = [])"
proof -
  let ?g = "generate env req s h tokens"
  let ?s1 = "resetIfNewDay (todayUTC env) s"
  have first: "\<forall>f. reply ?g = Failed 429 f \<longleftrightarrow>
      fst (generateBegin env req s h) = Replied (Failed 429 f)"
    by (simp add: early_reply_first_step)
  have frame: "(store_after ?g, heap_after ?g) =
        snd (userRecord (todayUTC env) (clientIp req) ?s1 h) \<and>
      globalCount (store_after ?g) = globalCount ?s1 \<and>
      resetDate (store_after ?g) = todayUTC env \<and>
      (\<forall>ip. clientCount (todayUTC env) ip (store_after ?g) (heap_after ?g) =
            clientCount (todayUTC env) ip ?s1 h) \<and>
      (\<forall>ip. ip \<noteq> clientIp req \<longrightarrow>
            entryOf (store_after ?g) (heap_after ?g) ip = entryOf ?s1 h ip) \<and>
      entryOf (store_after ?g) (heap_after ?g) (clientIp req) =
        Some \<lparr>count = clientCount (todayUTC env) (clientIp req) ?s1 h,
              date = todayUTC env\<rparr> \<and>
      (\<forall>rec. entryOf ?s1 h (clientIp req) = Some rec \<and> date rec = todayUTC env \<longrightarrow>
             store_after ?g = ?s1 \<and> heap_after ?g = h) \<and>
      tokens_after ?g = tokens \<and> textCalls ?g = []"
    if "reply ?g = Failed 429 f" for f
  proof -
    have state: "(store_after ?g, heap_after ?g) =
        snd (userRecord (todayUTC env) (clientIp req) ?s1 h)"
      and rest: "tokens_after ?g = tokens" "textCalls ?g = []"
      using early_reply_frame [OF that] by simp_all
    from lookup_frame [OF state] state rest show ?thesis
      by (simp add: resetIfNewDay_date)
  qed
  show ?thesis
    using limit_reply_iff [of env req s h tokens] first frame
    by (simp add: DAILY_GLOBAL_LIMIT_def DAILY_USER_LIMIT_def) blast
qed

lemma full_facts:
  "resetIfNewDay day2 fullStore = fullStore" "globalCount fullStore = 11"
  "storedCount ''10.0.0.1'' fullStore fullHeap = 0"
  "clientCount day2 ''10.0.0.1'' fullStore fullHeap = 0"
  "entryOf fullStore fullHeap ''10.0.0.2'' = Some \<lparr>count = 2, date = day2\<rparr>"
  by (simp_all add: fullStore_def fullHeap_def heapOf_cells resetIfNewDay_def storedCount_def
      clientCount_entry entryOf_def)

lemma spent_facts:
  "resetIfNewDay day2 spentStore = spentStore" "globalCount spentStore = 2"
  "storedCount ''10.0.0.1'' spentStore spentHeap = 2"
  "clientCount day2 ''10.0.0.1'' spentStore spentHeap = 2"
  "entryOf spentStore spentHeap ''10.0.0.1'' = Some \<lparr>count = 2, date = day2\<rparr>"
  by (simp_all add: spentStore_def spentHeap_def heapOf_cells resetIfNewDay_def storedCount_def
      clientCount_entry entryOf_def)

lemma over_facts:
  "resetIfNewDay day2 overStore = overStore" "globalCount overStore = 50"
  "storedCount ''10.0.0.1'' overStore overHeap = 7"
  "clientCount day2 ''10.0.0.1'' overStore overHeap = 7"
  "cells overHeap 0 = \<lparr>count = 7, date = day2\<rparr>"
  by (simp_all add: overStore_def overHeap_def heapOf_cells resetIfNewDay_def storedCount_def
      clientCount_entry entryOf_def)

theorem limit_check_global_then_user_witness:
  "globalCount fullStore = 11 \<and> storedCount ''10.0.0.1'' fullStore fullHeap = 0 \<and>
   reply (generate envOk alice fullStore fullHeap []) = Failed 429 GlobalLimit \<and>
   globalCount (store_after (generate envOk alice fullStore fullHeap [])) = 11 \<and>
   ''10.0.0.2'' \<noteq> clientIp alice \<and>
   entryOf (store_after (generate envOk alice fullStore fullHeap []))
     (heap_after (generate envOk alice fullStore fullHeap [])) ''10.0.0.2'' =
     Some \<lparr>count = 2, date = day2\<rparr> \<and>
   textCalls (generate envOk alice fullStore fullHeap []) = [] \<and>
   globalCount spentStore = 2 \<and> storedCount ''10.0.0.1'' spentStore spentHeap = 2 \<and>
   entryOf spentStore spentHeap (clientIp alice) = Some \<lparr>count = 2, date = day2\<rparr> \<and>
   reply (generate envOk alice spentStore spentHeap []) = Failed 429 UserLimit \<and>
   store_after (generate envOk alice spentStore spentHeap []) = spentStore \<and>
   heap_after (generate envOk alice spentStore spentHeap []) = spentHeap \<and>
   globalCount overStore = 50 \<and> storedCount ''10.0.0.1'' overStore overHeap = 7 \<and>
   reply (generate envOk alice overStore overHeap []) = Failed 429 GlobalLimit"
proof -
  note full = limit_check_global_then_user [of envOk alice fullStore fullHeap "[]"]
  note spent = limit_check_global_then_user [of envOk alice spentStore spentHeap "[]"]
  note over = limit_check_global_then_user [of envOk alice overStore overHeap "[]"]
  have other: "''10.0.0.2'' \<noteq> clientIp alice"
    by (simp add: clientIp_alice)
  have r1: "reply (generate envOk alice fullStore fullHeap []) = Failed 429 GlobalLimit"
    using full [THEN conjunct2, THEN conjunct2, THEN conjunct1]
    by (simp add: envOk_fields full_facts DAILY_GLOBAL_LIMIT_def)
  with full other
  have f1: "globalCount (store_after (generate envOk alice fullStore fullHeap [])) =
        globalCount (resetIfNewDay (todayUTC envOk) fullStore) \<and>
      entryOf (store_after (generate envOk alice fullStore fullHeap []))
          (heap_after (generate envOk alice fullStore fullHeap [])) ''10.0.0.2'' =
        entryOf (resetIfNewDay (todayUTC envOk) fullStore) fullHeap ''10.0.0.2'' \<and>
      textCalls (generate envOk alice fullStore fullHeap []) = []"
    by blast
  have r2: "reply (generate envOk alice spentStore spentHeap []) = Failed 429 UserLimit"
    using spent [THEN conjunct2, THEN conjunct2, THEN conjunct2, THEN conjunct1]
    by (simp add: envOk_fields spent_facts clientIp_alice DAILY_GLOBAL_LIMIT_def
        DAILY_USER_LIMIT_def)
  have mine: "entryOf (resetIfNewDay (todayUTC envOk) spentStore) spentHeap (clientIp alice) =
        Some \<lparr>count = 2, date = day2\<rparr> \<and>
      date \<lparr>count = 2, date = day2\<rparr> = todayUTC envOk"
    by (simp add: envOk_fields spent_facts clientIp_alice)
  with spent r2
  have f2: "store_after (generate envOk alice spentStore spentHeap []) =
        resetIfNewDay (todayUTC envOk) spentStore \<and>
      heap_after (generate envOk alice spentStore spentHeap []) = spentHeap"
    by blast
  have r3: "reply (generate envOk alice overStore overHeap []) = Failed 429 GlobalLimit"
    using over [THEN conjunct2, THEN conjunct2, THEN conjunct1]
    by (simp add: envOk_fields over_facts DAILY_GLOBAL_LIMIT_def)
  from r1 f1 other r2 f2 r3 show ?thesis
    by (simp add: envOk_fields full_facts spent_facts over_facts clientIp_alice)
qed

subsection \<open>Input validation\<close>

lemma isWhiteSpace_a: "\<not> isWhiteSpace 97"
  by (simp add: isWhiteSpace_def)

lemma isWhiteSpace_space: "isWhiteSpace 32"
  by (simp add: isWhiteSpace_def)

lemma dropWhile_replicate_a:
  "0 < n \<Longrightarrow> dropWhile isWhiteSpace (replicate n 97 @ xs) = replicate n 97 @ xs"
  by (cases n) (simp_all add: isWhiteSpace_a)

lemma paddedVibe_units: "paddedVibe = replicate 600 97 @ [32]"
  by (simp add: paddedVibe_def utf16_def)

lemma longVibe_units: "longVibe = replicate 601 97"
  by (simp add: longVibe_def utf16_def)

lemma trim_paddedVibe: "trim paddedVibe = replicate 600 97"
proof -
  have "rev paddedVibe = 32 # replicate 600 97"
    by (simp add: paddedVibe_units)
  then show ?thesis
    using dropWhile_replicate_a [of 600 "[]"] dropWhile_replicate_a [of 600 "[32]"]
    by (simp add: trim_def trimBy_def paddedVibe_units isWhiteSpace_space)
qed

lemma trim_longVibe: "trim longVibe = longVibe"
  using dropWhile_replicate_a [of 601 "[]"]
  by (simp add: trim_def trimBy_def longVibe_units)

lemma empty_facts:
  "resetIfNewDay day2 emptyStore = emptyStore" "globalCount emptyStore = 0"
  "clientCount day2 ''10.0.0.1'' emptyStore (heapOf []) = 0"
  "entryOf emptyStore (heapOf []) ''10.0.0.1'' = None"
  by (simp_all add: emptyStore_def resetIfNewDay_def clientCount_entry entryOf_def)

lemma vibe_reply_iff:
  "((\<exists>f. reply (generate env req s h tokens) = Failed 400 f) \<longleftrightarrow>
      globalCount (resetIfNewDay (todayUTC env) s) < DAILY_GLOBAL_LIMIT \<and>
      clientCount (todayUTC env) (clientIp req) (resetIfNewDay (todayUTC env) s) h
        < DAILY_USER_LIMIT \<and>
      \<not> validVibe req) \<and>
   (reply (generate env req s h tokens) = Failed 400 VibeInvalid \<longleftrightarrow>
      (\<exists>f. reply (generate env req s h tokens) = Failed 400 f))"
  by (auto simp add: generate_unfold generateResume_status split: prod.splits)

text \<open>
  Claim C7, as stated, fails. The length is tested on the trimmed input, so an input
  string of 601 characters whose last character is a space is accepted: from an empty
  ledger the generation goes through, the text API is called with the 600 remaining
  characters and both counters are incremented.
\<close>

theorem padded_601_characters_accepted:
  "length paddedVibe = 601 \<and>
   isGenerated (reply (generate envOk (alice\<lparr>vibe := Some paddedVibe\<rparr>) emptyStore (heapOf []) [])) \<and>
   textCalls (generate envOk (alice\<lparr>vibe := Some paddedVibe\<rparr>) emptyStore (heapOf []) []) =
     [(utf16 ''k'', utf16 (replicate 600 (CHR ''a'')))] \<and>
   globalCount
     (store_after (generate envOk (alice\<lparr>vibe := Some paddedVibe\<rparr>) emptyStore (heapOf []) []))
     = 1 \<and>
   storedCount ''10.0.0.1''
     (store_after (generate envOk (alice\<lparr>vibe := Some paddedVibe\<rparr>) emptyStore (heapOf []) []))
     (heap_after (generate envOk (alice\<lparr>vibe := Some paddedVibe\<rparr>) emptyStore (heapOf []) []))
     = 1"
proof -
  let ?req = "alice\<lparr>vibe := Some paddedVibe\<rparr>"
  let ?g = "generate envOk ?req emptyStore (heapOf []) []"
  have letters: "utf16 (replicate 600 (CHR ''a'')) = replicate 600 97"
    by (simp add: utf16_def)
  have valid: "validVibe ?req" "sentVibe ?req = utf16 (replicate 600 (CHR ''a''))"
    by (simp_all add: validVibe_def sentVibe_def trim_paddedVibe letters)
  have ip: "clientIp ?req = ''10.0.0.1''"
    by (simp add: clientIp_vibe_update clientIp_alice)
  have builds: "coverUrlBuilds (sentVibe ?req) (sentKey envOk)"
    by (simp only: valid(2) hasApiKey_envOk(2) coverUrlBuilds_utf16)
  have gen: "isGenerated (reply ?g)"
    using valid(1) hasApiKey_envOk(1) fullySucceeds_envOk builds
    by (simp add: isGenerated_generate envOk_fields ip empty_facts DAILY_GLOBAL_LIMIT_def
        DAILY_USER_LIMIT_def)
  obtain rec s2 h2 where ur: "userRecord day2 ''10.0.0.1'' emptyStore (heapOf []) = (rec, s2, h2)"
    by (cases "userRecord day2 ''10.0.0.1'' emptyStore (heapOf [])")
  have calls: "textCalls ?g = [(utf16 ''k'', utf16 (replicate 600 (CHR ''a'')))]"
    using valid(1) hasApiKey_envOk(1)
    by (simp add: generate_unfold envOk_fields ip empty_facts ur valid(2) hasApiKey_envOk(2)
        generateResume_def Let_def DAILY_GLOBAL_LIMIT_def DAILY_USER_LIMIT_def
        split: sum.splits option.splits)
  have wd: "wellDated emptyStore (heapOf [])" and cur: "resetDate emptyStore = todayUTC envOk"
    by (simp_all add: wellDated_def emptyStore_def envOk_fields)
  have g: "globalCount (store_after ?g) = 1"
    using globalCount_generate [of envOk ?req emptyStore "heapOf []" "[]"] gen
    by (simp add: envOk_fields empty_facts)
  have "clientCount day2 ''10.0.0.1'' (store_after ?g) (heap_after ?g) = 1"
    using clientCount_generate [of envOk ?req emptyStore "heapOf []" "[]"] gen
    by (simp add: envOk_fields ip empty_facts)
  moreover have "clientCount (resetDate (store_after ?g)) ''10.0.0.1'' (store_after ?g)
      (heap_after ?g) = storedCount ''10.0.0.1'' (store_after ?g) (heap_after ?g)"
    using wd by (intro wellDated_clientCount wellDated_generate)
  ultimately have c: "storedCount ''10.0.0.1'' (store_after ?g) (heap_after ?g) = 1"
    by (simp add: resetDate_generate envOk_fields)
  have "length paddedVibe = 601"
    by (simp add: paddedVibe_units)
  with gen calls g c show ?thesis by simp
qed

text \<open>
  Claim C7, amended. The generate handler answers 400 exactly when both limit checks
  pass and the vibe field is not a string, is empty after trimming, or is longer than
  600 characters after trimming; a 400 answer is always the validation error, is given
  in the first step of the handler, makes no upstream call, issues no token and changes
  no counter: the store and the heap are as the lazy day reset and the lookup of the
  caller's record made them. An input whose trimmed form has 601 characters is rejected
  so; a request that fails a limit check is answered 429 whatever its input.
\<close>

theorem vibe_validated_after_trimming:
  "(reply (generate env req s h tokens) = Failed 400 VibeInvalid \<longleftrightarrow>
      globalCount (resetIfNewDay (todayUTC env) s) < DAILY_GLOBAL_LIMIT \<and>
      clientCount (todayUTC env) (clientIp req) (resetIfNewDay (todayUTC env) s) h
        < DAILY_USER_LIMIT \<and>
      (vibe req = None \<or>
       (\<exists>x. vibe req = Some x \<and> (trim x = [] \<or> 600 < length (trim x))))) \<and>
   ((\<exists>f. reply (generate env req s h tokens) = Failed 400 f) \<longrightarrow>
      reply (generate env req s h tokens) = Failed 400 VibeInvalid \<and>
      fst (generateBegin env req s h) = Replied (Failed 400 VibeInvalid) \<and>
      textCalls (generate env req s h tokens) = [] \<and>
      tokens_after (generate env req s h tokens) = tokens \<and>
      (store_after (generate env req s h tokens), heap_after (generate env req s h tokens)) =
        snd (userRecord (todayUTC env) (clientIp req) (resetIfNewDay (todayUTC env) s) h) \<and>
      globalCount (store_after (generate env req s h tokens)) =
        globalCount (resetIfNewDay (todayUTC env) s) \<and>
      (\<forall>ip. clientCount (todayUTC env) ip
              (store_after (generate env req s h tokens))
              (heap_after (generate env req s h tokens)) =
            clientCount (todayUTC env) ip (resetIfNewDay (todayUTC env) s) h) \<and>
      (\<forall>ip. ip \<noteq> clientIp req \<longrightarrow>
            entryOf (store_after (generate env req s h tokens))
              (heap_after (generate env req s h tokens)) ip =
            entryOf (resetIfNewDay (todayUTC env) s) h ip)) \<and>
   (\<not> (globalCount (resetIfNewDay (todayUTC env) s) < DAILY_GLOBAL_LIMIT \<and>
       clientCount (todayUTC env) (clientIp req) (resetIfNewDay (todayUTC env) s) h
         < DAILY_USER_LIMIT) \<longrightarrow>
      (\<exists>f. reply (generate env req s h tokens) = Failed 429 f))"
proof -
  let ?g = "generate env req s h tokens"
  let ?s1 = "resetIfNewDay (todayUTC env) s"
  have invalid: "\<not> validVibe req \<longleftrightarrow>
      vibe req = None \<or> (\<exists>x. vibe req = Some x \<and> (trim x = [] \<or> 600 < length (trim x)))"
    by (cases "vibe req") (auto simp add: validVibe_def)
  have frame: "fst (generateBegin env req s h) = Replied (Failed 400 f) \<and>
      textCalls ?g = [] \<and> tokens_after ?g = tokens \<and>
      (store_after ?g, heap_after ?g) =
        snd (userRecord (todayUTC env) (clientIp req) ?s1 h) \<and>
      globalCount (store_after ?g) = globalCount ?s1 \<and>
      (\<forall>ip. clientCount (todayUTC env) ip (store_after ?g) (heap_after ?g) =
            clientCount (todayUTC env) ip ?s1 h) \<and>
      (\<forall>ip. ip \<noteq> clientIp req \<longrightarrow>
            entryOf (store_after ?g) (heap_after ?g) ip = entryOf ?s1 h ip)"
    if "reply ?g = Failed 400 f" for f
  proof -
    have state: "(store_after ?g, heap_after ?g) =
        snd (userRecord (todayUTC env) (clientIp req) ?s1 h)"
      and rest: "tokens_after ?g = tokens" "textCalls ?g = []"
      using early_reply_frame [OF that] by simp_all
    have "fst (generateBegin env req s h) = Replied (Failed 400 f)"
      using that early_reply_first_step [of 400 env req s h tokens f] by simp
    with lookup_frame [OF state] state rest show ?thesis by simp
  qed
  have denied: "\<exists>f. reply ?g = Failed 429 f"
    if "\<not> (globalCount ?s1 < DAILY_GLOBAL_LIMIT \<and>
      clientCount (todayUTC env) (clientIp req) ?s1 h < DAILY_USER_LIMIT)"
    using that limit_reply_iff [of env req s h tokens] by auto
  show ?thesis
    using vibe_reply_iff [of env req s h tokens] frame invalid denied by blast
qed

theorem vibe_validated_after_trimming_witness:
  "length (trim longVibe) = 601 \<and>
   reply (generate envOk (alice\<lparr>vibe := Some longVibe\<rparr>) emptyStore (heapOf []) []) =
     Failed 400 VibeInvalid \<and>
   textCalls (generate envOk (alice\<lparr>vibe := Some longVibe\<rparr>) emptyStore (heapOf []) []) = [] \<and>
   globalCount
     (store_after (generate envOk (alice\<lparr>vibe := Some longVibe\<rparr>) emptyStore (heapOf []) []))
     = 0 \<and>
   clientCount day2 ''10.0.0.1''
     (store_after (generate envOk (alice\<lparr>vibe := Some longVibe\<rparr>) emptyStore (heapOf []) []))
     (heap_after (generate envOk (alice\<lparr>vibe := Some longVibe\<rparr>) emptyStore (heapOf []) []))
     = 0 \<and>
   \<not> (globalCount (resetIfNewDay (todayUTC envOk) fullStore) < DAILY_GLOBAL_LIMIT \<and>
      clientCount (todayUTC envOk) (clientIp (alice\<lparr>vibe := Some longVibe\<rparr>))
        (resetIfNewDay (todayUTC envOk) fullStore) fullHeap < DAILY_USER_LIMIT) \<and>
   reply (generate envOk (alice\<lparr>vibe := Some longVibe\<rparr>) fullStore fullHeap []) =
     Failed 429 GlobalLimit"
proof -
  let ?req = "alice\<lparr>vibe := Some longVibe\<rparr>"
  let ?g = "generate envOk ?req emptyStore (heapOf []) []"
  have len: "length (trim longVibe) = 601"
    by (simp add: trim_longVibe) (simp add: longVibe_units)
  have ip: "clientIp ?req = ''10.0.0.1''"
    by (simp add: clientIp_vibe_update clientIp_alice)
  have long: "vibe ?req = Some longVibe \<and> (trim longVibe = [] \<or> 600 < length (trim longVibe))"
    by (simp add: len)
  have admitted: "globalCount (resetIfNewDay (todayUTC envOk) emptyStore) < DAILY_GLOBAL_LIMIT \<and>
      clientCount (todayUTC envOk) (clientIp ?req) (resetIfNewDay (todayUTC envOk) emptyStore)
        (heapOf []) < DAILY_USER_LIMIT"
    by (simp add: envOk_fields ip empty_facts DAILY_GLOBAL_LIMIT_def DAILY_USER_LIMIT_def)
  note claim = vibe_validated_after_trimming [of envOk ?req emptyStore "heapOf []" "[]"]
  from claim admitted long have rejected: "reply ?g = Failed 400 VibeInvalid"
    by blast
  with claim
  have "textCalls ?g = [] \<and>
      globalCount (store_after ?g) = globalCount (resetIfNewDay (todayUTC envOk) emptyStore) \<and>
      (\<forall>ip. clientCount (todayUTC envOk) ip (store_after ?g) (heap_after ?g) =
        clientCount (todayUTC envOk) ip (resetIfNewDay (todayUTC envOk) emptyStore) (heapOf []))"
    by blast
  then have kept: "textCalls ?g = [] \<and> globalCount (store_after ?g) = 0 \<and>
      clientCount day2 ''10.0.0.1'' (store_after ?g) (heap_after ?g) = 0"
    by (simp add: envOk_fields empty_facts)
  have full: "\<not> (globalCount (resetIfNewDay (todayUTC envOk) fullStore) < DAILY_GLOBAL_LIMIT \<and>
      clientCount (todayUTC envOk) (clientIp ?req)
        (resetIfNewDay (todayUTC envOk) fullStore) fullHeap < DAILY_USER_LIMIT)"
    by (simp add: envOk_fields full_facts DAILY_GLOBAL_LIMIT_def)
  with vibe_validated_after_trimming [of envOk ?req fullStore fullHeap "[]"]
  have "\<exists>f. reply (generate envOk ?req fullStore fullHeap []) = Failed 429 f"
    by blast
  moreover have "DAILY_GLOBAL_LIMIT \<le> globalCount (resetIfNewDay (todayUTC envOk) fullStore)"
    by (simp add: envOk_fields full_facts DAILY_GLOBAL_LIMIT_def)
  ultimately have "reply (generate envOk ?req fullStore fullHeap []) = Failed 429 GlobalLimit"
    using limit_reply_iff [of envOk ?req fullStore fullHeap "[]"] by blast
  with len rejected kept full show ?thesis by simp
qed

subsection \<open>The status handler\<close>

text \<open>
  Claim C8, as stated, fails. On a store whose reset date is current and that has no
  record for the caller, a status request stores a record with count 0 under the
  caller's key: the set of per-client entries is not as before.
\<close>

theorem status_adds_caller_record:
  "resetDate emptyStore = day2 \<and> users emptyStore = [] \<and>
   entryOf emptyStore (heapOf []) ''10.0.0.1'' = None \<and>
   map fst (users (fst (snd (status day2 alice emptyStore (heapOf []))))) = [''10.0.0.1''] \<and>
   entryOf (fst (snd (status day2 alice emptyStore (heapOf []))))
     (snd (snd (status day2 alice emptyStore (heapOf [])))) ''10.0.0.1'' =
     Some \<lparr>count = 0, date = day2\<rparr>"
  by (simp add: status_def emptyStore_def resetIfNewDay_def userRecord_def Let_def fresh_def
      clientIp_alice entryOf_def heapOf_cells)

text \<open>
  Claim C8, amended. Beyond the lazy day reset, a status request changes at most the
  caller's own entry: the global counter is as the reset leaves it, the stored date is
  today's (and the reset changes nothing when the date was current), the entry of every
  other client is as before, and the caller's entry afterwards holds today's date and
  the count the handler read for the caller (0 for a missing or outdated record). When
  the caller already has a record of today the store and the heap are exactly as the
  reset leaves them.
\<close>

theorem status_only_materialises_caller:
  "globalCount (fst (snd (status today req s h))) = globalCount (resetIfNewDay today s) \<and>
   resetDate (fst (snd (status today req s h))) = today \<and>
   (resetDate s = today \<longrightarrow> resetIfNewDay today s = s) \<and>
   (\<forall>ip. ip \<noteq> clientIp req \<longrightarrow>
      entryOf (fst (snd (status today req s h))) (snd (snd (status today req s h))) ip =
      entryOf (resetIfNewDay today s) h ip) \<and>
   (\<forall>ip. ip \<noteq> clientIp req \<longrightarrow>
      map_of (users (fst (snd (status today req s h)))) ip =
      map_of (users (resetIfNewDay today s)) ip) \<and>
   entryOf (fst (snd (status today req s h))) (snd (snd (status today req s h))) (clientIp req) =
     Some \<lparr>count = clientCount today (clientIp req) (resetIfNewDay today s) h, date = today\<rparr> \<and>
   (\<forall>rec. entryOf (resetIfNewDay today s) h (clientIp req) = Some rec \<and> date rec = today
      \<longrightarrow> fst (snd (status today req s h)) = resetIfNewDay today s \<and>
          snd (snd (status today req s h)) = h)"
proof -
  let ?s1 = "resetIfNewDay today s"
  let ?ip = "clientIp req"
  obtain rec s2 h2 where ur: "userRecord today ?ip ?s1 h = (rec, s2, h2)"
    by (cases "userRecord today ?ip ?s1 h")
  have after: "fst (snd (status today req s h)) = s2" "snd (snd (status today req s h)) = h2"
    by (simp_all add: status_unfold ur)
  have state: "(s2, h2) = snd (userRecord today ?ip ?s1 h)"
    by (simp add: ur)
  from lookup_frame [OF state] userRecord_store(5) [OF ur]
  show ?thesis
    by (simp add: after resetIfNewDay_date resetIfNewDay_same)
qed

theorem status_only_materialises_caller_witness:
  "resetDate busyStore = day2 \<and>
   entryOf busyStore busyHeap (clientIp alice) = Some \<lparr>count = 1, date = day2\<rparr> \<and>
   fst (snd (status day2 alice busyStore busyHeap)) = busyStore \<and>
   snd (snd (status day2 alice busyStore busyHeap)) = busyHeap \<and>
   ''10.0.0.2'' \<noteq> clientIp alice \<and>
   entryOf (fst (snd (status day2 alice busyStore busyHeap)))
     (snd (snd (status day2 alice busyStore busyHeap))) ''10.0.0.2'' =
     Some \<lparr>count = 2, date = day2\<rparr>"
proof -
  note claim = status_only_materialises_caller [of day2 alice busyStore busyHeap]
  have mine: "entryOf (resetIfNewDay day2 busyStore) busyHeap (clientIp alice) =
      Some \<lparr>count = 1, date = day2\<rparr> \<and> date \<lparr>count = 1, date = day2\<rparr> = day2"
    by (simp add: busy_facts clientIp_alice)
  have other: "entryOf (resetIfNewDay day2 busyStore) busyHeap ''10.0.0.2'' =
      Some \<lparr>count = 2, date = day2\<rparr>"
    by (simp add: busy_facts)
  have ne: "''10.0.0.2'' \<noteq> clientIp alice"
    by (simp add: clientIp_alice)
  from claim mine
  have same: "fst (snd (status day2 alice busyStore busyHeap)) = resetIfNewDay day2 busyStore \<and>
      snd (snd (status day2 alice busyStore busyHeap)) = busyHeap"
    by blast
  from claim ne
  have "entryOf (fst (snd (status day2 alice busyStore busyHeap)))
      (snd (snd (status day2 alice busyStore busyHeap))) ''10.0.0.2'' =
      entryOf (resetIfNewDay day2 busyStore) busyHeap ''10.0.0.2''"
    by blast
  with same mine other ne show ?thesis
    by (simp add: busy_facts)
qed

subsection \<open>Remaining counts\<close>

text \<open>
  Claim C10. For every store, also one whose counters exceed their limits, the
  remaining counts that the status handler reports, and those that a successful
  generation reports, are the limits minus the counts clamped at zero, and so never
  negative. The same holds for the second step of the generate handler on whatever
  store and heap it finds when the text API call returns.
\<close>

theorem remaining_never_negative:
  "globalRemaining (fst (status today req s h)) =
     max 0 (DAILY_GLOBAL_LIMIT - globalCount (resetIfNewDay today s)) \<and>
   userRemaining (fst (status today req s h)) =
     max 0 (DAILY_USER_LIMIT - clientCount today (clientIp req) (resetIfNewDay today s) h) \<and>
   0 \<le> globalRemaining (fst (status today req s h)) \<and>
   0 \<le> userRemaining (fst (status today req s h)) \<and>
   (\<forall>tracklist token r.
      reply (generate env req s h tokens) = Generated tracklist token r \<longrightarrow>
      global r =
        max 0 (DAILY_GLOBAL_LIMIT - globalCount (store_after (generate env req s h tokens))) \<and>
      user r = max 0 (DAILY_USER_LIMIT -
        clientCount (todayUTC env) (clientIp req) (store_after (generate env req s h tokens))
          (heap_after (generate env req s h tokens))) \<and>
      0 \<le> global r \<and> 0 \<le> user r) \<and>
   (\<forall>tracklist token r.
      reply (generateResume env ctx sm hm tm) = Generated tracklist token r \<longrightarrow>
      global r =
        max 0 (DAILY_GLOBAL_LIMIT - globalCount (store_after (generateResume env ctx sm hm tm))) \<and>
      user r = max 0 (DAILY_USER_LIMIT -
        count (cells (heap_after (generateResume env ctx sm hm tm)) (ctx_rec ctx))) \<and>
      0 \<le> global r \<and> 0 \<le> user r)"
proof -
  let ?g = "generate env req s h tokens"
  let ?today = "todayUTC env" and ?ip = "clientIp req"
  let ?s1 = "resetIfNewDay (todayUTC env) s"
  have resumed: "global r =
        max 0 (DAILY_GLOBAL_LIMIT - globalCount (store_after (generateResume env c s' h' t'))) \<and>
      user r = max 0 (DAILY_USER_LIMIT -
        count (cells (heap_after (generateResume env c s' h' t')) (ctx_rec c))) \<and>
      0 \<le> global r \<and> 0 \<le> user r"
    if "reply (generateResume env c s' h' t') = Generated tracklist token r"
    for c s' h' t' tracklist token r
    using generateResume_remaining [OF that] by simp
  have whole: "global r = max 0 (DAILY_GLOBAL_LIMIT - globalCount (store_after ?g)) \<and>
      user r = max 0 (DAILY_USER_LIMIT -
        clientCount ?today ?ip (store_after ?g) (heap_after ?g)) \<and>
      0 \<le> global r \<and> 0 \<le> user r"
    if gen: "reply ?g = Generated tracklist token r" for tracklist token r
  proof -
    obtain rec s2 h2 where ur: "userRecord ?today ?ip ?s1 h = (rec, s2, h2)"
      by (cases "userRecord ?today ?ip ?s1 h")
    let ?ctx = "\<lparr>ctx_ip = ?ip, ctx_rec = rec, ctx_vibe = sentVibe req, ctx_apiKey = sentKey env\<rparr>"
    let ?r = "generateResume env ?ctx s2 h2 tokens"
    from gen have g: "?g = ?r"
      by (auto simp add: generate_unfold ur split: if_splits)
    with gen have rgen: "reply ?r = Generated tracklist token r" by simp
    then have isgen: "isGenerated (reply ?r)" by (simp add: isGenerated_def)
    have "userRecord ?today ?ip (store_after ?r) (heap_after ?r) =
        (rec, store_after ?r, heap_after ?r)"
      using userRecord_store(3,4) [OF ur]
      by (intro userRecord_kept) (simp_all add: generateResume_generated [OF isgen])
    then have "clientCount ?today ?ip (store_after ?r) (heap_after ?r) =
        count (cells (heap_after ?r) rec)"
      by (simp add: clientCount_def)
    with resumed [OF rgen] show ?thesis by (simp add: g)
  qed
  from whole resumed show ?thesis
    by (simp add: status_unfold split: prod.splits)
qed

lemma generateResume_envOk:
  "\<exists>r. reply (generateResume envOk aliceCtx sm hm tm) = Generated goodTracklist ''u1'' r"
proof -
  have "\<exists>u. imageUrl 1000 (utf16 ''neon rain'') (utf16 ''k'') = Some u"
    using imageUrl_Some_iff [of 1000 "utf16 ''neon rain''" "utf16 ''k''"]
    by (simp add: coverUrlBuilds_utf16)
  then obtain u where "imageUrl 1000 (utf16 ''neon rain'') (utf16 ''k'') = Some u" ..
  then show ?thesis
    by (simp add: generateResume_def textApi_envOk aliceCtx_def envOk_fields Let_def)
qed

lemma generate_envOk_busy:
  "generate envOk alice busyStore busyHeap [] = generateResume envOk aliceCtx busyStore busyHeap []"
  using validVibe_alice(1) hasApiKey_envOk(1)
  by (simp add: generate_unfold envOk_fields clientIp_alice busy_facts aliceCtx_def
      validVibe_alice(2) hasApiKey_envOk(2) DAILY_GLOBAL_LIMIT_def DAILY_USER_LIMIT_def)

theorem remaining_never_negative_witness:
  "globalCount overStore = 50 \<and> storedCount ''10.0.0.1'' overStore overHeap = 7 \<and>
   globalRemaining (fst (status day2 alice overStore overHeap)) = 0 \<and>
   userRemaining (fst (status day2 alice overStore overHeap)) = 0 \<and>
   reply (generate envOk alice busyStore busyHeap []) =
     Generated goodTracklist ''u1'' \<lparr>user = 0, global = 7\<rparr> \<and>
   reply (generateResume envOk aliceCtx overStore overHeap []) =
     Generated goodTracklist ''u1'' \<lparr>user = 0, global = 0\<rparr>"
proof -
  note over = remaining_never_negative
    [where today = day2 and req = alice and s = overStore and h = overHeap and env = envOk
       and tokens = "[]" and ctx = aliceCtx and sm = overStore and hm = overHeap and tm = "[]"]
  note busy = remaining_never_negative
    [where today = day2 and req = alice and s = busyStore and h = busyHeap and env = envOk
       and tokens = "[]" and ctx = aliceCtx and sm = busyStore and hm = busyHeap and tm = "[]"]
  have ctx: "ctx_ip aliceCtx = ''10.0.0.1''" "ctx_rec aliceCtx = 0"
    "ctx_vibe aliceCtx = utf16 ''neon rain''" "ctx_apiKey aliceCtx = utf16 ''k''"
    by (simp_all add: aliceCtx_def)
  from over
  have st: "globalRemaining (fst (status day2 alice overStore overHeap)) = 0 \<and>
      userRemaining (fst (status day2 alice overStore overHeap)) = 0"
    by (simp add: over_facts clientIp_alice DAILY_GLOBAL_LIMIT_def DAILY_USER_LIMIT_def)
  obtain r where r: "reply (generate envOk alice busyStore busyHeap []) =
      Generated goodTracklist ''u1'' r"
    using generateResume_envOk [of busyStore busyHeap "[]"] by (auto simp add: generate_envOk_busy)
  then have gen: "isGenerated (reply (generate envOk alice busyStore busyHeap []))"
    by (simp add: isGenerated_def)
  have after: "globalCount (store_after (generate envOk alice busyStore busyHeap [])) = 4"
    "clientCount day2 ''10.0.0.1'' (store_after (generate envOk alice busyStore busyHeap []))
       (heap_after (generate envOk alice busyStore busyHeap [])) = 2"
    using globalCount_generate [of envOk alice busyStore busyHeap "[]"]
      clientCount_generate [of envOk alice busyStore busyHeap "[]"] gen
    by (simp_all add: busy_facts envOk_fields clientIp_alice)
  from busy r
  have "global r = max 0 (DAILY_GLOBAL_LIMIT -
        globalCount (store_after (generate envOk alice busyStore busyHeap []))) \<and>
      user r = max 0 (DAILY_USER_LIMIT -
        clientCount (todayUTC envOk) (clientIp alice)
          (store_after (generate envOk alice busyStore busyHeap []))
          (heap_after (generate envOk alice busyStore busyHeap [])))"
    by blast
  then have "user r = 0 \<and> global r = 7"
    by (simp add: after envOk_fields clientIp_alice DAILY_GLOBAL_LIMIT_def DAILY_USER_LIMIT_def)
  then have r_val: "r = \<lparr>user = 0, global = 7\<rparr>"
    by (cases r) simp
  obtain q where q: "reply (generateResume envOk aliceCtx overStore overHeap []) =
      Generated goodTracklist ''u1'' q"
    using generateResume_envOk [of overStore overHeap "[]"] by blast
  then have rgen: "isGenerated (reply (generateResume envOk aliceCtx overStore overHeap []))"
    by (simp add: isGenerated_def)
  have over_after:
    "globalCount (store_after (generateResume envOk aliceCtx overStore overHeap [])) = 51"
    "count (cells (heap_after (generateResume envOk aliceCtx overStore overHeap []))
       (ctx_rec aliceCtx)) = 8"
    by (simp_all add: generateResume_generated [OF rgen] over_facts ctx)
  from over q
  have "global q = max 0 (DAILY_GLOBAL_LIMIT -
        globalCount (store_after (generateResume envOk aliceCtx overStore overHeap []))) \<and>
      user q = max 0 (DAILY_USER_LIMIT -
        count (cells (heap_after (generateResume envOk aliceCtx overStore overHeap []))
          (ctx_rec aliceCtx)))"
    by blast
  then have "user q = 0 \<and> global q = 0"
    by (simp add: over_after DAILY_GLOBAL_LIMIT_def DAILY_USER_LIMIT_def)
  then have q_val: "q = \<lparr>user = 0, global = 0\<rparr>"
    by (cases q) simp
  from st r r_val q q_val show ?thesis
    by (simp add: over_facts)
qed

end
